theory Spec2Isabelle
  imports Main "HOL-Library.Word"
begin

unbundle bit_operations_syntax

section \<open>Machine words\<close>

text \<open>
  The sources work on bytes (\<open>unsigned char\<close>), on 32-bit words (\<open>sph_u32\<close>) and on a
  64-bit length counter (\<open>sph_u64\<close>). Addition on these types wraps around, which is
  what \<open>SPH_T32\<close> writes out in the C code.
\<close>

type_synonym byte = "8 word"
type_synonym sph_u32 = "32 word"
type_synonym sph_u64 = "64 word"

section \<open>HAVAL: the boolean step functions\<close>

text \<open>
  The macros \<open>F1\<close> to \<open>F5\<close> as the header defines them (the optimised forms that are
  compiled). The argument order is that of the macros: \<open>x6\<close> first, \<open>x0\<close> last.
\<close>

definition F1 :: "sph_u32 \<Rightarrow> sph_u32 \<Rightarrow> sph_u32 \<Rightarrow> sph_u32 \<Rightarrow> sph_u32 \<Rightarrow> sph_u32 \<Rightarrow> sph_u32 \<Rightarrow> sph_u32" where
  "F1 x6 x5 x4 x3 x2 x1 x0 =
     ((x1 AND (x0 XOR x4)) XOR ((x2 AND x5) XOR ((x3 AND x6) XOR x0)))"

definition F2 :: "sph_u32 \<Rightarrow> sph_u32 \<Rightarrow> sph_u32 \<Rightarrow> sph_u32 \<Rightarrow> sph_u32 \<Rightarrow> sph_u32 \<Rightarrow> sph_u32 \<Rightarrow> sph_u32" where
  "F2 x6 x5 x4 x3 x2 x1 x0 =
     ((x2 AND ((x1 AND (NOT x3)) XOR ((x4 AND x5) XOR (x6 XOR x0))))
      XOR ((x4 AND (x1 XOR x5)) XOR ((x3 AND x5) XOR x0)))"

definition F3 :: "sph_u32 \<Rightarrow> sph_u32 \<Rightarrow> sph_u32 \<Rightarrow> sph_u32 \<Rightarrow> sph_u32 \<Rightarrow> sph_u32 \<Rightarrow> sph_u32 \<Rightarrow> sph_u32" where
  "F3 x6 x5 x4 x3 x2 x1 x0 =
     ((x3 AND ((x1 AND x2) XOR (x6 XOR x0)))
      XOR ((x1 AND x4) XOR ((x2 AND x5) XOR x0)))"

definition F4 :: "sph_u32 \<Rightarrow> sph_u32 \<Rightarrow> sph_u32 \<Rightarrow> sph_u32 \<Rightarrow> sph_u32 \<Rightarrow> sph_u32 \<Rightarrow> sph_u32 \<Rightarrow> sph_u32" where
  "F4 x6 x5 x4 x3 x2 x1 x0 =
     ((x3 AND ((x1 AND x2) XOR ((x4 OR x6) XOR x5)))
      XOR ((x4 AND (((NOT x2) AND x5) XOR (x1 XOR (x6 XOR x0))))
      XOR ((x2 AND x6) XOR x0)))"

definition F5 :: "sph_u32 \<Rightarrow> sph_u32 \<Rightarrow> sph_u32 \<Rightarrow> sph_u32 \<Rightarrow> sph_u32 \<Rightarrow> sph_u32 \<Rightarrow> sph_u32 \<Rightarrow> sph_u32" where
  "F5 x6 x5 x4 x3 x2 x1 x0 =
     ((x0 AND (NOT ((x1 AND (x2 AND x3)) XOR x5)))
      XOR ((x1 AND x4) XOR ((x2 AND x5) XOR (x3 AND x6))))"

text \<open>
  The "basic definition from the reference paper" that the header keeps in the comment
  in front of each macro, transcribed from those comments.
\<close>

definition F1_ref :: "sph_u32 \<Rightarrow> sph_u32 \<Rightarrow> sph_u32 \<Rightarrow> sph_u32 \<Rightarrow> sph_u32 \<Rightarrow> sph_u32 \<Rightarrow> sph_u32 \<Rightarrow> sph_u32" where
  "F1_ref x6 x5 x4 x3 x2 x1 x0 =
     ((x1 AND x4) XOR ((x2 AND x5) XOR ((x3 AND x6) XOR ((x0 AND x1) XOR x0))))"

definition F2_ref :: "sph_u32 \<Rightarrow> sph_u32 \<Rightarrow> sph_u32 \<Rightarrow> sph_u32 \<Rightarrow> sph_u32 \<Rightarrow> sph_u32 \<Rightarrow> sph_u32 \<Rightarrow> sph_u32" where
  "F2_ref x6 x5 x4 x3 x2 x1 x0 =
     ((x1 AND (x2 AND x3)) XOR ((x2 AND (x4 AND x5)) XOR ((x1 AND x2)
      XOR ((x1 AND x4) XOR ((x2 AND x6) XOR ((x3 AND x5)
      XOR ((x4 AND x5) XOR ((x0 AND x2) XOR x0))))))))"

definition F3_ref :: "sph_u32 \<Rightarrow> sph_u32 \<Rightarrow> sph_u32 \<Rightarrow> sph_u32 \<Rightarrow> sph_u32 \<Rightarrow> sph_u32 \<Rightarrow> sph_u32 \<Rightarrow> sph_u32" where
  "F3_ref x6 x5 x4 x3 x2 x1 x0 =
     ((x1 AND (x2 AND x3)) XOR ((x1 AND x4) XOR ((x2 AND x5)
      XOR ((x3 AND x6) XOR ((x0 AND x3) XOR x0)))))"

definition F4_ref :: "sph_u32 \<Rightarrow> sph_u32 \<Rightarrow> sph_u32 \<Rightarrow> sph_u32 \<Rightarrow> sph_u32 \<Rightarrow> sph_u32 \<Rightarrow> sph_u32 \<Rightarrow> sph_u32" where
  "F4_ref x6 x5 x4 x3 x2 x1 x0 =
     ((x1 AND (x2 AND x3)) XOR ((x2 AND (x4 AND x5)) XOR ((x3 AND (x4 AND x6))
      XOR ((x1 AND x4) XOR ((x2 AND x6) XOR ((x3 AND x4) XOR ((x3 AND x5)
      XOR ((x3 AND x6) XOR ((x4 AND x5) XOR ((x4 AND x6) XOR ((x0 AND x4) XOR x0)))))))))))"

definition F5_ref :: "sph_u32 \<Rightarrow> sph_u32 \<Rightarrow> sph_u32 \<Rightarrow> sph_u32 \<Rightarrow> sph_u32 \<Rightarrow> sph_u32 \<Rightarrow> sph_u32 \<Rightarrow> sph_u32" where
  "F5_ref x6 x5 x4 x3 x2 x1 x0 =
     ((x1 AND x4) XOR ((x2 AND x5) XOR ((x3 AND x6)
      XOR ((x0 AND (x1 AND (x2 AND x3))) XOR ((x0 AND x5) XOR x0)))))"

section \<open>HAVAL: helpers from \<open>sph_types.h\<close>\<close>

text \<open>
  \<open>sph_types.h\<close> is not among the sources. Its macros and inline functions that the HAVAL
  code uses are taken with their documented meaning: \<open>SPH_C32\<close> writes a 32-bit
  constant, \<open>SPH_T32\<close> truncates to 32 bits (the identity on \<open>sph_u32\<close>, where
  arithmetic already wraps), \<open>SPH_ROTL32\<close> and \<open>SPH_ROTR32\<close> rotate a 32-bit word,
  \<open>sph_enc32le\<close> stores a word as four bytes, least significant first, and
  \<open>sph_dec32le_aligned\<close> reads it back. The published digest of the empty message
  (\<open>haval256_5_empty_message\<close> below) depends on each of them.
\<close>

definition SPH_ROTL32 :: "sph_u32 \<Rightarrow> nat \<Rightarrow> sph_u32" where
  "SPH_ROTL32 x n = word_rotl n x"

definition SPH_ROTR32 :: "sph_u32 \<Rightarrow> nat \<Rightarrow> sph_u32" where
  "SPH_ROTR32 x n = word_rotr n x"

definition sph_enc32le :: "sph_u32 \<Rightarrow> byte list" where
  "sph_enc32le v = [ucast v, ucast (drop_bit 8 v), ucast (drop_bit 16 v), ucast (drop_bit 24 v)]"

definition sph_enc64le :: "sph_u64 \<Rightarrow> byte list" where
  "sph_enc64le v = map (\<lambda>i. ucast (drop_bit (8 * i) v)) [0..<8]"

fun sph_dec32le :: "byte list \<Rightarrow> sph_u32" where
  "sph_dec32le [] = 0"
| "sph_dec32le (b # bs) = ucast b OR push_bit 8 (sph_dec32le bs)"

text \<open>
  Memory is modelled as byte lists. \<open>write_at buf off src\<close> is the buffer after
  \<open>memcpy(buf + off, src, length src)\<close>; \<open>read_at buf off n\<close> is the \<open>n\<close> bytes at
  \<open>buf + off\<close>.
\<close>

definition write_at :: "byte list \<Rightarrow> nat \<Rightarrow> byte list \<Rightarrow> byte list" where
  "write_at buf off src = take off buf @ src @ drop (off + length src) buf"

definition read_at :: "byte list \<Rightarrow> nat \<Rightarrow> nat \<Rightarrow> byte list" where
  "read_at buf off n = take n (drop off buf)"

section \<open>HAVAL: the context and its initialisation\<close>

text \<open>
  \<open>sph_haval_context\<close> of the header, in the \<open>SPH_64\<close> layout (one 64-bit counter).
  \<open>unsigned\<close> is a 32-bit word.
\<close>

record sph_haval_context =
  buf :: "byte list"
  s0 :: sph_u32
  s1 :: sph_u32
  s2 :: sph_u32
  s3 :: sph_u32
  s4 :: sph_u32
  s5 :: sph_u32
  s6 :: sph_u32
  s7 :: sph_u32
  olen :: "32 word"
  passes :: "32 word"
  count :: sph_u64

definition haval_init :: "sph_haval_context \<Rightarrow> 32 word \<Rightarrow> 32 word \<Rightarrow> sph_haval_context" where
  "haval_init sc olen' passes' =
     sc\<lparr> s0 := 0x243F6A88, s1 := 0x85A308D3, s2 := 0x13198A2E, s3 := 0x03707344,
         s4 := 0xA4093822, s5 := 0x299F31D0, s6 := 0x082EFA98, s7 := 0xEC4E6C89,
         olen := olen', passes := passes', count := 0 \<rparr>"

section \<open>HAVAL: output tailoring\<close>

definition mix128 :: "sph_u32 \<Rightarrow> sph_u32 \<Rightarrow> sph_u32 \<Rightarrow> sph_u32 \<Rightarrow> nat \<Rightarrow> sph_u32" where
  "mix128 a0 a1 a2 a3 n =
     (let tmp = (a0 AND 0x000000FF) OR (a1 AND 0x0000FF00)
                OR (a2 AND 0x00FF0000) OR (a3 AND 0xFF000000)
      in if n > 0 then SPH_ROTL32 tmp n else tmp)"

definition mix160_0 :: "sph_u32 \<Rightarrow> sph_u32 \<Rightarrow> sph_u32 \<Rightarrow> sph_u32" where
  "mix160_0 x5 x6 x7 =
     SPH_ROTL32 ((x5 AND 0x01F80000) OR (x6 AND 0xFE000000) OR (x7 AND 0x0000003F)) 13"

definition mix160_1 :: "sph_u32 \<Rightarrow> sph_u32 \<Rightarrow> sph_u32 \<Rightarrow> sph_u32" where
  "mix160_1 x5 x6 x7 =
     SPH_ROTL32 ((x5 AND 0xFE000000) OR (x6 AND 0x0000003F) OR (x7 AND 0x00000FC0)) 7"

definition mix160_2 :: "sph_u32 \<Rightarrow> sph_u32 \<Rightarrow> sph_u32 \<Rightarrow> sph_u32" where
  "mix160_2 x5 x6 x7 =
     ((x5 AND 0x0000003F) OR (x6 AND 0x00000FC0) OR (x7 AND 0x0007F000))"

definition mix160_3 :: "sph_u32 \<Rightarrow> sph_u32 \<Rightarrow> sph_u32 \<Rightarrow> sph_u32" where
  "mix160_3 x5 x6 x7 =
     drop_bit 6 ((x5 AND 0x00000FC0) OR (x6 AND 0x0007F000) OR (x7 AND 0x01F80000))"

definition mix160_4 :: "sph_u32 \<Rightarrow> sph_u32 \<Rightarrow> sph_u32 \<Rightarrow> sph_u32" where
  "mix160_4 x5 x6 x7 =
     drop_bit 12 ((x5 AND 0x0007F000) OR (x6 AND 0x01F80000) OR (x7 AND 0xFE000000))"

definition mix192_0 :: "sph_u32 \<Rightarrow> sph_u32 \<Rightarrow> sph_u32" where
  "mix192_0 x6 x7 = SPH_ROTL32 ((x6 AND 0xFC000000) OR (x7 AND 0x0000001F)) 6"

definition mix192_1 :: "sph_u32 \<Rightarrow> sph_u32 \<Rightarrow> sph_u32" where
  "mix192_1 x6 x7 = ((x6 AND 0x0000001F) OR (x7 AND 0x000003E0))"

definition mix192_2 :: "sph_u32 \<Rightarrow> sph_u32 \<Rightarrow> sph_u32" where
  "mix192_2 x6 x7 = drop_bit 5 ((x6 AND 0x000003E0) OR (x7 AND 0x0000FC00))"

definition mix192_3 :: "sph_u32 \<Rightarrow> sph_u32 \<Rightarrow> sph_u32" where
  "mix192_3 x6 x7 = drop_bit 10 ((x6 AND 0x0000FC00) OR (x7 AND 0x001F0000))"

definition mix192_4 :: "sph_u32 \<Rightarrow> sph_u32 \<Rightarrow> sph_u32" where
  "mix192_4 x6 x7 = drop_bit 16 ((x6 AND 0x001F0000) OR (x7 AND 0x03E00000))"

definition mix192_5 :: "sph_u32 \<Rightarrow> sph_u32 \<Rightarrow> sph_u32" where
  "mix192_5 x6 x7 = drop_bit 21 ((x6 AND 0x03E00000) OR (x7 AND 0xFC000000))"

text \<open>
  \<open>haval_out\<close> writes the digest at \<open>dst\<close>; the model returns the bytes it writes, in
  order (4, 5, 6, 7 or 8 words). The \<open>switch\<close> has no default case: for any other
  \<open>olen\<close> nothing is written.
\<close>

definition haval_out :: "sph_haval_context \<Rightarrow> byte list" where
  "haval_out sc =
     (if olen sc = 4 then
        sph_enc32le (s0 sc + mix128 (s7 sc) (s4 sc) (s5 sc) (s6 sc) 24)
        @ sph_enc32le (s1 sc + mix128 (s6 sc) (s7 sc) (s4 sc) (s5 sc) 16)
        @ sph_enc32le (s2 sc + mix128 (s5 sc) (s6 sc) (s7 sc) (s4 sc) 8)
        @ sph_enc32le (s3 sc + mix128 (s4 sc) (s5 sc) (s6 sc) (s7 sc) 0)
      else if olen sc = 5 then
        sph_enc32le (s0 sc + mix160_0 (s5 sc) (s6 sc) (s7 sc))
        @ sph_enc32le (s1 sc + mix160_1 (s5 sc) (s6 sc) (s7 sc))
        @ sph_enc32le (s2 sc + mix160_2 (s5 sc) (s6 sc) (s7 sc))
        @ sph_enc32le (s3 sc + mix160_3 (s5 sc) (s6 sc) (s7 sc))
        @ sph_enc32le (s4 sc + mix160_4 (s5 sc) (s6 sc) (s7 sc))
      else if olen sc = 6 then
        sph_enc32le (s0 sc + mix192_0 (s6 sc) (s7 sc))
        @ sph_enc32le (s1 sc + mix192_1 (s6 sc) (s7 sc))
        @ sph_enc32le (s2 sc + mix192_2 (s6 sc) (s7 sc))
        @ sph_enc32le (s3 sc + mix192_3 (s6 sc) (s7 sc))
        @ sph_enc32le (s4 sc + mix192_4 (s6 sc) (s7 sc))
        @ sph_enc32le (s5 sc + mix192_5 (s6 sc) (s7 sc))
      else if olen sc = 7 then
        sph_enc32le (s0 sc + (drop_bit 27 (s7 sc) AND 0x1F))
        @ sph_enc32le (s1 sc + (drop_bit 22 (s7 sc) AND 0x1F))
        @ sph_enc32le (s2 sc + (drop_bit 18 (s7 sc) AND 0x0F))
        @ sph_enc32le (s3 sc + (drop_bit 13 (s7 sc) AND 0x1F))
        @ sph_enc32le (s4 sc + (drop_bit 9 (s7 sc) AND 0x0F))
        @ sph_enc32le (s5 sc + (drop_bit 4 (s7 sc) AND 0x1F))
        @ sph_enc32le (s6 sc + (s7 sc AND 0x0F))
      else if olen sc = 8 then
        sph_enc32le (s0 sc) @ sph_enc32le (s1 sc) @ sph_enc32le (s2 sc)
        @ sph_enc32le (s3 sc) @ sph_enc32le (s4 sc) @ sph_enc32le (s5 sc)
        @ sph_enc32le (s6 sc) @ sph_enc32le (s7 sc)
      else [])"

section \<open>HAVAL: the compression function\<close>

text \<open>
  The macros \<open>FPn_p\<close> integrate the permutation \<open>phi\<close> of pass \<open>p\<close> out of \<open>n\<close> passes.
\<close>

definition FP3_1 :: "sph_u32 \<Rightarrow> sph_u32 \<Rightarrow> sph_u32 \<Rightarrow> sph_u32 \<Rightarrow> sph_u32 \<Rightarrow> sph_u32 \<Rightarrow> sph_u32 \<Rightarrow> sph_u32" where
  "FP3_1 x6 x5 x4 x3 x2 x1 x0 = F1 x1 x0 x3 x5 x6 x2 x4"

definition FP3_2 :: "sph_u32 \<Rightarrow> sph_u32 \<Rightarrow> sph_u32 \<Rightarrow> sph_u32 \<Rightarrow> sph_u32 \<Rightarrow> sph_u32 \<Rightarrow> sph_u32 \<Rightarrow> sph_u32" where
  "FP3_2 x6 x5 x4 x3 x2 x1 x0 = F2 x4 x2 x1 x0 x5 x3 x6"

definition FP3_3 :: "sph_u32 \<Rightarrow> sph_u32 \<Rightarrow> sph_u32 \<Rightarrow> sph_u32 \<Rightarrow> sph_u32 \<Rightarrow> sph_u32 \<Rightarrow> sph_u32 \<Rightarrow> sph_u32" where
  "FP3_3 x6 x5 x4 x3 x2 x1 x0 = F3 x6 x1 x2 x3 x4 x5 x0"

definition FP4_1 :: "sph_u32 \<Rightarrow> sph_u32 \<Rightarrow> sph_u32 \<Rightarrow> sph_u32 \<Rightarrow> sph_u32 \<Rightarrow> sph_u32 \<Rightarrow> sph_u32 \<Rightarrow> sph_u32" where
  "FP4_1 x6 x5 x4 x3 x2 x1 x0 = F1 x2 x6 x1 x4 x5 x3 x0"

definition FP4_2 :: "sph_u32 \<Rightarrow> sph_u32 \<Rightarrow> sph_u32 \<Rightarrow> sph_u32 \<Rightarrow> sph_u32 \<Rightarrow> sph_u32 \<Rightarrow> sph_u32 \<Rightarrow> sph_u32" where
  "FP4_2 x6 x5 x4 x3 x2 x1 x0 = F2 x3 x5 x2 x0 x1 x6 x4"

definition FP4_3 :: "sph_u32 \<Rightarrow> sph_u32 \<Rightarrow> sph_u32 \<Rightarrow> sph_u32 \<Rightarrow> sph_u32 \<Rightarrow> sph_u32 \<Rightarrow> sph_u32 \<Rightarrow> sph_u32" where
  "FP4_3 x6 x5 x4 x3 x2 x1 x0 = F3 x1 x4 x3 x6 x0 x2 x5"

definition FP4_4 :: "sph_u32 \<Rightarrow> sph_u32 \<Rightarrow> sph_u32 \<Rightarrow> sph_u32 \<Rightarrow> sph_u32 \<Rightarrow> sph_u32 \<Rightarrow> sph_u32 \<Rightarrow> sph_u32" where
  "FP4_4 x6 x5 x4 x3 x2 x1 x0 = F4 x6 x4 x0 x5 x2 x1 x3"

definition FP5_1 :: "sph_u32 \<Rightarrow> sph_u32 \<Rightarrow> sph_u32 \<Rightarrow> sph_u32 \<Rightarrow> sph_u32 \<Rightarrow> sph_u32 \<Rightarrow> sph_u32 \<Rightarrow> sph_u32" where
  "FP5_1 x6 x5 x4 x3 x2 x1 x0 = F1 x3 x4 x1 x0 x5 x2 x6"

definition FP5_2 :: "sph_u32 \<Rightarrow> sph_u32 \<Rightarrow> sph_u32 \<Rightarrow> sph_u32 \<Rightarrow> sph_u32 \<Rightarrow> sph_u32 \<Rightarrow> sph_u32 \<Rightarrow> sph_u32" where
  "FP5_2 x6 x5 x4 x3 x2 x1 x0 = F2 x6 x2 x1 x0 x3 x4 x5"

definition FP5_3 :: "sph_u32 \<Rightarrow> sph_u32 \<Rightarrow> sph_u32 \<Rightarrow> sph_u32 \<Rightarrow> sph_u32 \<Rightarrow> sph_u32 \<Rightarrow> sph_u32 \<Rightarrow> sph_u32" where
  "FP5_3 x6 x5 x4 x3 x2 x1 x0 = F3 x2 x6 x0 x4 x3 x1 x5"

definition FP5_4 :: "sph_u32 \<Rightarrow> sph_u32 \<Rightarrow> sph_u32 \<Rightarrow> sph_u32 \<Rightarrow> sph_u32 \<Rightarrow> sph_u32 \<Rightarrow> sph_u32 \<Rightarrow> sph_u32" where
  "FP5_4 x6 x5 x4 x3 x2 x1 x0 = F4 x1 x5 x3 x2 x0 x4 x6"

definition FP5_5 :: "sph_u32 \<Rightarrow> sph_u32 \<Rightarrow> sph_u32 \<Rightarrow> sph_u32 \<Rightarrow> sph_u32 \<Rightarrow> sph_u32 \<Rightarrow> sph_u32 \<Rightarrow> sph_u32" where
  "FP5_5 x6 x5 x4 x3 x2 x1 x0 = F5 x2 x5 x0 x6 x4 x3 x1"

text \<open>
  The running state of a compression is the eight variables \<open>s0\<close>, ..., \<open>s7\<close> declared by
  \<open>DSTATE\<close>. One \<open>STEP\<close> assigns its first register argument \<open>x7\<close> from the other seven,
  the input word \<open>w\<close> and the constant \<open>c\<close>. The passes call \<open>STEP\<close> with the register
  names rotated by one place each time (\<open>s7, s6, ..., s0\<close>, then \<open>s6, s5, ..., s0, s7\<close>,
  and so on), so the model keeps the registers as a tuple in the order of the macro's
  arguments and returns them in the order the next call names them. After eight steps
  the tuple is again \<open>(s7, s6, s5, s4, s3, s2, s1, s0)\<close>.
\<close>

type_synonym hregs =
  "sph_u32 \<times> sph_u32 \<times> sph_u32 \<times> sph_u32 \<times> sph_u32 \<times> sph_u32 \<times> sph_u32 \<times> sph_u32"

type_synonym hfun =
  "sph_u32 \<Rightarrow> sph_u32 \<Rightarrow> sph_u32 \<Rightarrow> sph_u32 \<Rightarrow> sph_u32 \<Rightarrow> sph_u32 \<Rightarrow> sph_u32 \<Rightarrow> sph_u32"

fun STEP :: "hfun \<Rightarrow> hregs \<Rightarrow> sph_u32 \<Rightarrow> sph_u32 \<Rightarrow> hregs" where
  "STEP fp (x7, x6, x5, x4, x3, x2, x1, x0) w c =
     (x6, x5, x4, x3, x2, x1, x0,
      SPH_ROTR32 (fp x6 x5 x4 x3 x2 x1 x0) 7 + SPH_ROTR32 x7 11 + w + c)"

text \<open>
  The word order and the constants of passes 2 to 5. The header has them twice, as the
  tables \<open>MP2\<close>..\<open>MP5\<close> and \<open>RK2\<close>..\<open>RK5\<close> of the small-footprint build and written out
  in the unrolled \<open>PASS2\<close>..\<open>PASS5\<close>; the two agree entry by entry.
\<close>

definition MP2 :: "nat list" where
  "MP2 =
     [ 5, 14, 26, 18, 11, 28,  7, 16,
       0, 23, 20, 22,  1, 10,  4,  8,
      30,  3, 21,  9, 17, 24, 29,  6,
      19, 12, 15, 13,  2, 25, 31, 27]"

definition MP3 :: "nat list" where
  "MP3 =
     [19,  9,  4, 20, 28, 17,  8, 22,
      29, 14, 25, 12, 24, 30, 16, 26,
      31, 15,  7,  3,  1,  0, 18, 27,
      13,  6, 21, 10, 23, 11,  5,  2]"

definition MP4 :: "nat list" where
  "MP4 =
     [24,  4,  0, 14,  2,  7, 28, 23,
      26,  6, 30, 20, 18, 25, 19,  3,
      22, 11, 31, 21,  8, 27, 12,  9,
       1, 29,  5, 15, 17, 10, 16, 13]"

definition MP5 :: "nat list" where
  "MP5 =
     [27,  3, 21, 26, 17, 11, 20, 29,
      19,  0, 12,  7, 13,  8, 31, 10,
       5,  9, 14, 30, 18,  6, 28, 24,
       2, 23, 16, 22,  4,  1, 25, 15]"

definition RK2 :: "sph_u32 list" where
  "RK2 =
     [0x452821E6, 0x38D01377, 0xBE5466CF, 0x34E90C6C,
      0xC0AC29B7, 0xC97C50DD, 0x3F84D5B5, 0xB5470917,
      0x9216D5D9, 0x8979FB1B, 0xD1310BA6, 0x98DFB5AC,
      0x2FFD72DB, 0xD01ADFB7, 0xB8E1AFED, 0x6A267E96,
      0xBA7C9045, 0xF12C7F99, 0x24A19947, 0xB3916CF7,
      0x0801F2E2, 0x858EFC16, 0x636920D8, 0x71574E69,
      0xA458FEA3, 0xF4933D7E, 0x0D95748F, 0x728EB658,
      0x718BCD58, 0x82154AEE, 0x7B54A41D, 0xC25A59B5]"

definition RK3 :: "sph_u32 list" where
  "RK3 =
     [0x9C30D539, 0x2AF26013, 0xC5D1B023, 0x286085F0,
      0xCA417918, 0xB8DB38EF, 0x8E79DCB0, 0x603A180E,
      0x6C9E0E8B, 0xB01E8A3E, 0xD71577C1, 0xBD314B27,
      0x78AF2FDA, 0x55605C60, 0xE65525F3, 0xAA55AB94,
      0x57489862, 0x63E81440, 0x55CA396A, 0x2AAB10B6,
      0xB4CC5C34, 0x1141E8CE, 0xA15486AF, 0x7C72E993,
      0xB3EE1411, 0x636FBC2A, 0x2BA9C55D, 0x741831F6,
      0xCE5C3E16, 0x9B87931E, 0xAFD6BA33, 0x6C24CF5C]"

definition RK4 :: "sph_u32 list" where
  "RK4 =
     [0x7A325381, 0x28958677, 0x3B8F4898, 0x6B4BB9AF,
      0xC4BFE81B, 0x66282193, 0x61D809CC, 0xFB21A991,
      0x487CAC60, 0x5DEC8032, 0xEF845D5D, 0xE98575B1,
      0xDC262302, 0xEB651B88, 0x23893E81, 0xD396ACC5,
      0x0F6D6FF3, 0x83F44239, 0x2E0B4482, 0xA4842004,
      0x69C8F04A, 0x9E1F9B5E, 0x21C66842, 0xF6E96C9A,
      0x670C9C61, 0xABD388F0, 0x6A51A0D2, 0xD8542F68,
      0x960FA728, 0xAB5133A3, 0x6EEF0B6C, 0x137A3BE4]"

definition RK5 :: "sph_u32 list" where
  "RK5 =
     [0xBA3BF050, 0x7EFB2A98, 0xA1F1651D, 0x39AF0176,
      0x66CA593E, 0x82430E88, 0x8CEE8619, 0x456F9FB4,
      0x7D84A5C3, 0x3B8B5EBE, 0xE06F75D8, 0x85C12073,
      0x401A449F, 0x56C16AA6, 0x4ED3AA62, 0x363F7706,
      0x1BFEDF72, 0x429B023D, 0x37D0D724, 0xD00A1248,
      0xDB0FEAD3, 0x49F1C09B, 0x075372C9, 0x80991B7B,
      0x25D479D8, 0xF6E8DEF7, 0xE3FE501A, 0xB6794C3B,
      0x976CE0BD, 0x04C006BA, 0xC1A94FB6, 0x409F60C4]"

text \<open>
  \<open>PASS1\<close> takes the input words in order with the constant 0; \<open>PASSG\<close> takes word
  \<open>MPp[k]\<close> and constant \<open>RKp[k]\<close> at step \<open>k\<close>. \<open>inw\<close> is the list of the 32 input
  words (\<open>INW(i)\<close> is \<open>inw ! i\<close>).
\<close>

definition PASS1 :: "hfun \<Rightarrow> sph_u32 list \<Rightarrow> hregs \<Rightarrow> hregs" where
  "PASS1 fp inw r = fold (\<lambda>k r. STEP fp r (inw ! k) 0) [0..<32] r"

definition PASSG :: "hfun \<Rightarrow> nat list \<Rightarrow> sph_u32 list \<Rightarrow> sph_u32 list \<Rightarrow> hregs \<Rightarrow> hregs" where
  "PASSG fp mp rk inw r = fold (\<lambda>k r. STEP fp r (inw ! (mp ! k)) (rk ! k)) [0..<32] r"

definition PASS2 :: "hfun \<Rightarrow> sph_u32 list \<Rightarrow> hregs \<Rightarrow> hregs" where
  "PASS2 fp = PASSG fp MP2 RK2"

definition PASS3 :: "hfun \<Rightarrow> sph_u32 list \<Rightarrow> hregs \<Rightarrow> hregs" where
  "PASS3 fp = PASSG fp MP3 RK3"

definition PASS4 :: "hfun \<Rightarrow> sph_u32 list \<Rightarrow> hregs \<Rightarrow> hregs" where
  "PASS4 fp = PASSG fp MP4 RK4"

definition PASS5 :: "hfun \<Rightarrow> sph_u32 list \<Rightarrow> hregs \<Rightarrow> hregs" where
  "PASS5 fp = PASSG fp MP5 RK5"

text \<open>\<open>UPDATE_STATE\<close> adds the state saved by \<open>SAVE_STATE\<close>, register by register.\<close>

fun UPDATE_STATE :: "hregs \<Rightarrow> hregs \<Rightarrow> hregs" where
  "UPDATE_STATE (x7, x6, x5, x4, x3, x2, x1, x0) (u7, u6, u5, u4, u3, u2, u1, u0) =
     (x7 + u7, x6 + u6, x5 + u5, x4 + u4, x3 + u3, x2 + u2, x1 + u1, x0 + u0)"

definition CORE3 :: "sph_u32 list \<Rightarrow> hregs \<Rightarrow> hregs" where
  "CORE3 inw u =
     UPDATE_STATE (PASS3 FP3_3 inw (PASS2 FP3_2 inw (PASS1 FP3_1 inw u))) u"

definition CORE4 :: "sph_u32 list \<Rightarrow> hregs \<Rightarrow> hregs" where
  "CORE4 inw u =
     UPDATE_STATE
       (PASS4 FP4_4 inw (PASS3 FP4_3 inw (PASS2 FP4_2 inw (PASS1 FP4_1 inw u)))) u"

definition CORE5 :: "sph_u32 list \<Rightarrow> hregs \<Rightarrow> hregs" where
  "CORE5 inw u =
     UPDATE_STATE
       (PASS5 FP5_5 inw
         (PASS4 FP5_4 inw (PASS3 FP5_3 inw (PASS2 FP5_2 inw (PASS1 FP5_1 inw u))))) u"

text \<open>\<open>RSTATE\<close> and \<open>WSTATE\<close> move the registers between the context and the locals.\<close>

definition RSTATE :: "sph_haval_context \<Rightarrow> hregs" where
  "RSTATE sc = (s7 sc, s6 sc, s5 sc, s4 sc, s3 sc, s2 sc, s1 sc, s0 sc)"

fun WSTATE :: "sph_haval_context \<Rightarrow> hregs \<Rightarrow> sph_haval_context" where
  "WSTATE sc (x7, x6, x5, x4, x3, x2, x1, x0) =
     sc\<lparr> s0 := x0, s1 := x1, s2 := x2, s3 := x3, s4 := x4, s5 := x5, s6 := x6, s7 := x7 \<rparr>"

text \<open>\<open>IN_PREPARE\<close> decodes the 32 little-endian words of the 128-byte block.\<close>

definition IN_PREPARE :: "byte list \<Rightarrow> sph_u32 list" where
  "IN_PREPARE indata = map (\<lambda>load_index. sph_dec32le (read_at indata (4 * load_index) 4)) [0..<32]"

text \<open>
  The exported compression functions \<open>sph_haval_3_comp\<close>, \<open>sph_haval_4_comp\<close> and
  \<open>sph_haval_5_comp\<close>: \<open>RVAL\<close> reads \<open>val[0..7]\<close> into \<open>s0..s7\<close>, \<open>WVAL\<close> writes them back.
\<close>

definition RVAL :: "sph_u32 list \<Rightarrow> hregs" where
  "RVAL val = (val ! 7, val ! 6, val ! 5, val ! 4, val ! 3, val ! 2, val ! 1, val ! 0)"

fun WVAL :: "hregs \<Rightarrow> sph_u32 list" where
  "WVAL (x7, x6, x5, x4, x3, x2, x1, x0) = [x0, x1, x2, x3, x4, x5, x6, x7]"

definition sph_haval_3_comp :: "sph_u32 list \<Rightarrow> sph_u32 list \<Rightarrow> sph_u32 list" where
  "sph_haval_3_comp msg val = WVAL (CORE3 msg (RVAL val))"

definition sph_haval_4_comp :: "sph_u32 list \<Rightarrow> sph_u32 list \<Rightarrow> sph_u32 list" where
  "sph_haval_4_comp msg val = WVAL (CORE4 msg (RVAL val))"

definition sph_haval_5_comp :: "sph_u32 list \<Rightarrow> sph_u32 list \<Rightarrow> sph_u32 list" where
  "sph_haval_5_comp msg val = WVAL (CORE5 msg (RVAL val))"

section \<open>HAVAL: update and close\<close>

text \<open>
  \<open>haval.c\<close> includes \<open>haval_helper.c\<close> three times, with \<open>PASSES\<close> set to 3, 4 and 5,
  to obtain \<open>haval3\<close>, \<open>haval4\<close>, \<open>haval5\<close> and their \<open>_close\<close> functions.
  \<open>haval_helper.c\<close> is not among the sources, so the two functions are modelled from
  the specification, with the passes as parameters: \<open>core\<close> is \<open>CORE3\<close>, \<open>CORE4\<close> or
  \<open>CORE5\<close>, and \<open>PASSES\<close> the number written into the padding.
\<close>

text \<open>One block: decode \<open>sc->buf\<close>, run the compression on the state, store the state.\<close>

definition haval_block :: "(sph_u32 list \<Rightarrow> hregs \<Rightarrow> hregs) \<Rightarrow> sph_haval_context \<Rightarrow> sph_haval_context" where
  "haval_block core sc = WSTATE sc (core (IN_PREPARE (buf sc)) (RSTATE sc))"

text \<open>
  Modelled from the spec: the update function \<open>haval ## PASSES\<close> of the missing
  \<open>haval_helper.c\<close>. "\<open>update(ctx, data, len)\<close> absorbs \<open>len\<close> bytes; if \<open>len == 0\<close> the
  call is a no-op; absorbed bytes accumulate in ctx's internal buffer and are compressed
  in fixed-size blocks as they fill, updating the internal state vector and length
  counter." The block is the 128-byte \<open>buf\<close>; the fill level is the counter modulo 128.
  Each round of the loop (\<open>haval_round\<close>) copies as many bytes as fit
  (\<open>haval_clen\<close>), compresses the block when it is full, and advances the counter.
\<close>

definition haval_clen :: "sph_haval_context \<Rightarrow> byte list \<Rightarrow> nat" where
  "haval_clen sc data = min (128 - unat (count sc AND 127)) (length data)"

definition haval_round ::
  "(sph_u32 list \<Rightarrow> hregs \<Rightarrow> hregs) \<Rightarrow> sph_haval_context \<Rightarrow> byte list \<Rightarrow> sph_haval_context" where
  "haval_round core sc data =
     (let current = unat (count sc AND 127);
          clen = haval_clen sc data;
          sc1 = sc\<lparr> buf := write_at (buf sc) current (take clen data) \<rparr>;
          sc2 = (if current + clen = 128 then haval_block core sc1 else sc1)
      in sc2\<lparr> count := count sc2 + of_nat clen \<rparr>)"

function haval_update ::
  "(sph_u32 list \<Rightarrow> hregs \<Rightarrow> hregs) \<Rightarrow> sph_haval_context \<Rightarrow> byte list \<Rightarrow> sph_haval_context" where
  "haval_update core sc data =
     (if data = [] then sc
      else haval_update core (haval_round core sc data) (drop (haval_clen sc data) data))"
  by pat_completeness auto
termination
proof (relation "measure (\<lambda>(core, sc, data). length data)")
  show "wf (measure (\<lambda>(core, sc, data). length data))" by simp
next
  fix core :: "sph_u32 list \<Rightarrow> hregs \<Rightarrow> hregs"
    and sc :: sph_haval_context and data :: "byte list"
  assume ne: "data \<noteq> []"
  have "count sc AND 127 \<le> 127" by (rule word_and_le1)
  then have "unat (count sc AND 127) \<le> unat (127 :: sph_u64)" by (simp add: word_le_nat_alt)
  then have "unat (count sc AND 127) < 128" by simp
  with ne have "0 < haval_clen sc data" and "0 < length data"
    by (simp_all add: haval_clen_def)
  then show "((core, haval_round core sc data, drop (haval_clen sc data) data), (core, sc, data))
      \<in> measure (\<lambda>(core, sc, data). length data)"
    by simp
qed

declare haval_update.simps [simp del]

text \<open>
  Modelled from the spec: the close function \<open>haval ## PASSES ## _close\<close> of the missing
  \<open>haval_helper.c\<close>. "\<open>close(ctx, out)\<close> applies primitive-specific padding (a \<open>1\<close> bit,
  zero bits, and an encoded bit-length), processes the final block(s), writes the digest
  to \<open>out\<close>, and reinitializes ctx as if \<open>init\<close> had just been called." For HAVAL the
  padding is the byte holding the extra bits \<open>ub\<close> (\<open>n\<close> of them) and the final \<open>1\<close> bit,
  zeros up to offset 118 of a block, the byte \<open>0x01 | (PASSES << 3)\<close>, the byte
  \<open>olen << 3\<close> and the bit length as 64 bits, least significant byte first. The digest is
  what \<open>haval_out\<close> writes; the reinitialisation is \<open>haval_init\<close> with the context's own
  \<open>olen\<close> and \<open>passes\<close>. The result is the context and the bytes written to \<open>dst\<close>.
  The layout of the padding is not in the specification; it is that of HAVAL, and
  \<open>haval256_5_empty_message\<close> below checks it against a published digest.
\<close>

definition haval_close ::
  "(sph_u32 list \<Rightarrow> hregs \<Rightarrow> hregs) \<Rightarrow> 32 word \<Rightarrow> sph_haval_context \<Rightarrow> 32 word \<Rightarrow> nat
     \<Rightarrow> sph_haval_context \<times> byte list" where
  "haval_close core PASSES sc ub n =
     (let current = unat (count sc AND 127);
          sc1 = sc\<lparr> buf := write_at (buf sc) current
                   [ucast (push_bit n (1 :: 32 word) OR drop_bit (8 - n) (ub AND 0xFF))] \<rparr>;
          current1 = current + 1;
          sc2 = (if current1 > 118
                 then haval_block core
                        (sc1\<lparr> buf := write_at (buf sc1) current1 (replicate (128 - current1) 0) \<rparr>)
                 else sc1);
          current2 = (if current1 > 118 then 0 else current1);
          sc3 = sc2\<lparr> buf := write_at (buf sc2) current2 (replicate (118 - current2) 0) \<rparr>;
          sc4 = sc3\<lparr> buf := write_at (buf sc3) 118 [ucast (1 OR push_bit 3 PASSES)] \<rparr>;
          sc5 = sc4\<lparr> buf := write_at (buf sc4) 119 [ucast (push_bit 3 (olen sc4))] \<rparr>;
          sc6 = sc5\<lparr> buf := write_at (buf sc5) 120 (sph_enc64le (push_bit 3 (count sc5))) \<rparr>;
          sc7 = haval_block core sc6
      in (haval_init sc7 (olen sc7) (passes sc7), haval_out sc7))"

text \<open>
  The API of HAVAL-256/5, generated by \<open>API(256, 5)\<close>: \<open>xxx >> 5\<close> is 8 output words.
  The macro pastes \<open>sph_haval ## xxx ## _ ## y ## addbits_and_close\<close>, so the function
  it defines is \<open>sph_haval256_5addbits_and_close\<close>; the header declares
  \<open>sph_haval256_5_addbits_and_close\<close>.
\<close>

definition sph_haval256_5_init :: "sph_haval_context \<Rightarrow> sph_haval_context" where
  "sph_haval256_5_init cc = haval_init cc (drop_bit 5 256) 5"

definition sph_haval256_5 :: "sph_haval_context \<Rightarrow> byte list \<Rightarrow> sph_haval_context" where
  "sph_haval256_5 cc data = haval_update CORE5 cc data"

definition sph_haval256_5_close :: "sph_haval_context \<Rightarrow> sph_haval_context \<times> byte list" where
  "sph_haval256_5_close cc = haval_close CORE5 5 cc 0 0"

definition sph_haval256_5addbits_and_close ::
  "sph_haval_context \<Rightarrow> 32 word \<Rightarrow> nat \<Rightarrow> sph_haval_context \<times> byte list" where
  "sph_haval256_5addbits_and_close cc ub n = haval_close CORE5 5 cc ub n"

text \<open>
  The bytes of \<open>buf\<close> that are still to be compressed are the first "counter modulo 128"
  ones; the rest of \<open>buf\<close> is left over from earlier blocks. Two contexts with the same
  state, parameters, counter and pending bytes differ at most in those left-over bytes.
\<close>

definition pending :: "sph_haval_context \<Rightarrow> byte list" where
  "pending sc = take (unat (count sc AND 127)) (buf sc)"

definition haval_same :: "sph_haval_context \<Rightarrow> sph_haval_context \<Rightarrow> bool" where
  "haval_same a b \<longleftrightarrow>
     RSTATE a = RSTATE b \<and> olen a = olen b \<and> passes a = passes b \<and> count a = count b
     \<and> pending a = pending b"

section \<open>The primitives of the chain\<close>

text \<open>
  \<open>hashblock.h\<close> calls the sphlib primitives through their \<open>init\<close>, \<open>update\<close> and \<open>close\<close>
  functions. Of these only HAVAL is among the sources; the others are parameters of the
  model. A primitive over contexts of type \<open>'c\<close> is its three functions: \<open>init\<close> writes
  into the context it is given, \<open>update\<close> absorbs the bytes it is given, \<open>close\<close> returns
  the context it leaves and the digest bytes it writes at \<open>dst\<close>.
\<close>

datatype prim =
    Blake512 | Sha512 | Bmw512 | Groestl512 | Jh512 | Keccak512 | Skein512 | Luffa512
  | Tiger | Ripemd160 | Cubehash512 | Panama | Shavite512 | Simd512 | Echo512 | Hamsi512
  | Fugue512 | Shabal512 | Haval256_5 | Whirlpool | Cubehash384 | Whirlpool1 | Tiger2
  | Groestl384

record 'c sph_prim =
  sph_init :: "'c \<Rightarrow> 'c"
  sph_update :: "'c \<Rightarrow> byte list \<Rightarrow> 'c"
  sph_close :: "'c \<Rightarrow> 'c \<times> byte list"

text \<open>HAVAL-256/5 in this form, from the API functions above.\<close>

definition haval256_5_prim :: "sph_haval_context sph_prim" where
  "haval256_5_prim =
     \<lparr> sph_init = sph_haval256_5_init, sph_update = sph_haval256_5,
       sph_close = sph_haval256_5_close \<rparr>"

text \<open>
  One run of a primitive as \<open>Hash9\<close> performs it: \<open>init\<close> on the context, one \<open>update\<close>
  with the data, \<open>close\<close>.
\<close>

definition sph_run :: "'c sph_prim \<Rightarrow> 'c \<Rightarrow> byte list \<Rightarrow> 'c \<times> byte list" where
  "sph_run Q c data = sph_close Q (sph_update Q (sph_init Q c) data)"

section \<open>The buffers and the locals of \<open>Hash9\<close>\<close>

text \<open>
  Modelled from the spec: \<open>uint512\<close> and \<open>trim256\<close> of \<open>uint256.h\<close>, which is not among
  the sources. A \<open>uint512\<close> is "a fixed-size (512-bit) byte buffer": 64 bytes. What its
  default constructor stores is not specified, so the bytes of a default-constructed
  \<open>uint512\<close> are a parameter \<open>u\<close> (byte \<open>i\<close> is \<open>u i\<close>). \<open>trim256\<close> yields "exactly the
  low-order 32 bytes of the 64-byte buffer in the buffer's canonical byte order", "i.e.
  first 32 bytes".
\<close>

definition uint512 :: "(nat \<Rightarrow> byte) \<Rightarrow> byte list" where
  "uint512 u = map u [0..<64]"

definition trim256 :: "byte list \<Rightarrow> byte list" where
  "trim256 b = take 32 b"

text \<open>
  The locals of \<open>Hash9\<close>: the contexts (\<open>ctx p\<close> is the context declared for primitive
  \<open>p\<close>, for instance \<open>ctx_blake\<close> for \<open>Blake512\<close>; \<open>ctx_haval\<close> is the HAVAL context) and
  the array \<open>hash\<close>. The field \<open>calls\<close> is not a variable of the program: it records, for
  each primitive run so far, the primitive, the bytes passed to \<open>update\<close> and the bytes
  \<open>close\<close> wrote.
\<close>

type_synonym call = "prim \<times> byte list \<times> byte list"

record 'c frame =
  ctx :: "prim \<Rightarrow> 'c"
  ctx_haval :: sph_haval_context
  hash :: "byte list list"
  calls :: "call list"

text \<open>
  The contexts are declared without initialiser: what they hold when \<open>Hash9\<close> starts is
  whatever the stack holds, a parameter of the model.
\<close>

record 'c stack =
  stack_ctx :: "prim \<Rightarrow> 'c"
  stack_haval :: sph_haval_context

definition enter :: "(nat \<Rightarrow> byte) \<Rightarrow> 'c stack \<Rightarrow> nat \<Rightarrow> 'c frame" where
  "enter u stk n =
     \<lparr> ctx = stack_ctx stk, ctx_haval = stack_haval stk,
       hash = replicate n (uint512 u), calls = [] \<rparr>"

text \<open>\<open>static unsigned char pblank[1]\<close>: one byte, zero-initialised.\<close>

definition pblank :: "byte list" where
  "pblank = [0]"

text \<open>
  The three calls of one step: \<open>sph_X_init(&ctx)\<close>, \<open>sph_X(&ctx, data, len)\<close>,
  \<open>sph_X_close(&ctx, &hash[dst])\<close>. \<open>data\<close> is the \<open>len\<close> bytes that \<open>update\<close> reads.
  \<open>close\<close> writes the digest at the start of \<open>hash[dst]\<close>.
\<close>

definition sph_hash ::
  "(prim \<Rightarrow> 'c sph_prim) \<Rightarrow> prim \<Rightarrow> byte list \<Rightarrow> nat \<Rightarrow> 'c frame \<Rightarrow> 'c frame" where
  "sph_hash P p data dst fr =
     (let c1 = sph_init (P p) (ctx fr p);
          c2 = sph_update (P p) c1 data;
          r = sph_close (P p) c2
      in fr\<lparr> ctx := (ctx fr)(p := fst r),
             hash := (hash fr)[dst := write_at (hash fr ! dst) 0 (snd r)],
             calls := calls fr @ [(p, data, snd r)] \<rparr>)"

definition haval_hash :: "byte list \<Rightarrow> nat \<Rightarrow> 'c frame \<Rightarrow> 'c frame" where
  "haval_hash data dst fr =
     (let c1 = sph_haval256_5_init (ctx_haval fr);
          c2 = sph_haval256_5 c1 data;
          r = sph_haval256_5_close c2
      in fr\<lparr> ctx_haval := fst r,
             hash := (hash fr)[dst := write_at (hash fr ! dst) 0 (snd r)],
             calls := calls fr @ [(Haval256_5, data, snd r)] \<rparr>)"

text \<open>
  The first step reads the message: the pointer is \<open>pblank\<close> for an empty range and
  \<open>&pbegin[0]\<close> otherwise, the length is \<open>(pend - pbegin) * sizeof(pbegin[0])\<close>. The
  message is a byte sequence, so the element size is 1. The later steps read 64 bytes
  of \<open>hash[src]\<close>.
\<close>

definition first_data :: "byte list \<Rightarrow> byte list" where
  "first_data m = take (length m * 1) (if m = [] then pblank else m)"

definition sph_first ::
  "(prim \<Rightarrow> 'c sph_prim) \<Rightarrow> prim \<Rightarrow> byte list \<Rightarrow> nat \<Rightarrow> 'c frame \<Rightarrow> 'c frame" where
  "sph_first P p m dst fr = sph_hash P p (first_data m) dst fr"

definition sph_next ::
  "(prim \<Rightarrow> 'c sph_prim) \<Rightarrow> prim \<Rightarrow> nat \<Rightarrow> nat \<Rightarrow> 'c frame \<Rightarrow> 'c frame" where
  "sph_next P p src dst fr = sph_hash P p (take 64 (hash fr ! src)) dst fr"

definition haval_next :: "nat \<Rightarrow> nat \<Rightarrow> 'c frame \<Rightarrow> 'c frame" where
  "haval_next src dst fr = haval_hash (take 64 (hash fr ! src)) dst fr"

text \<open>Statements in sequence: each is applied to the frame the one before it leaves.\<close>

definition run_seq :: "('s \<Rightarrow> 's) list \<Rightarrow> 's \<Rightarrow> 's" where
  "run_seq stmts s = fold (\<lambda>stmt s. stmt s) stmts s"

section \<open>The zero-state globals\<close>

text \<open>
  The process-wide contexts \<open>z_...\<close> of both versions of the header. \<open>z_haval\<close> is a HAVAL
  context; the others belong to primitives that are parameters. \<open>fillz\<close> of the 24-step
  header also names \<open>z_lowgroestl\<close> and \<open>tiger2\<close>, which the header does not declare;
  they are kept as two more objects.
\<close>

datatype zvar =
    z_blake | z_sha | z_bmw | z_lowcube | z_whirlpool1 | z_groestl | z_jh | z_keccak
  | z_skein | z_luffa | z_tiger | z_tiger2 | z_ripemd | z_cubehash | z_panama | z_shavite
  | z_simd | z_echo | z_hamsi | z_fugue | z_shabal | z_whirlpool | z_lowgroestl | tiger2

record 'c globals =
  zmem :: "zvar \<Rightarrow> 'c"
  z_haval :: sph_haval_context

text \<open>\<open>sph_X_init(&z)\<close> on a global of a parameter primitive.\<close>

definition zinit :: "(prim \<Rightarrow> 'c sph_prim) \<Rightarrow> prim \<Rightarrow> zvar \<Rightarrow> 'c globals \<Rightarrow> 'c globals" where
  "zinit P p z g = g\<lparr> zmem := (zmem g)(z := sph_init (P p) (zmem g z)) \<rparr>"

definition zinit_haval :: "'c globals \<Rightarrow> 'c globals" where
  "zinit_haval g = g\<lparr> z_haval := sph_haval256_5_init (z_haval g) \<rparr>"

text \<open>\<open>fillz\<close> of the 5-step header.\<close>

definition fillz_5 :: "(prim \<Rightarrow> 'c sph_prim) \<Rightarrow> 'c globals \<Rightarrow> 'c globals" where
  "fillz_5 P =
     run_seq
       [zinit P Keccak512 z_keccak,
        zinit P Cubehash512 z_cubehash,
        zinit P Panama z_panama,
        zinit P Whirlpool z_whirlpool]"

text \<open>\<open>fillz\<close> of the 24-step header.\<close>

definition fillz_24 :: "(prim \<Rightarrow> 'c sph_prim) \<Rightarrow> 'c globals \<Rightarrow> 'c globals" where
  "fillz_24 P =
     run_seq
       [zinit P Blake512 z_blake,
        zinit P Sha512 z_sha,
        zinit P Bmw512 z_bmw,
        zinit P Groestl512 z_groestl,
        zinit P Jh512 z_jh,
        zinit P Keccak512 z_keccak,
        zinit P Skein512 z_skein,
        zinit P Luffa512 z_luffa,
        zinit P Tiger z_tiger,
        zinit P Ripemd160 z_ripemd,
        zinit P Cubehash512 z_cubehash,
        zinit P Panama z_panama,
        zinit P Shavite512 z_shavite,
        zinit P Simd512 z_simd,
        zinit P Echo512 z_echo,
        zinit P Hamsi512 z_hamsi,
        zinit P Fugue512 z_fugue,
        zinit P Shabal512 z_shabal,
        zinit_haval,
        zinit P Whirlpool z_whirlpool,
        zinit P Cubehash384 z_lowcube,
        zinit P Whirlpool1 z_whirlpool1,
        zinit P Groestl384 z_lowgroestl,
        zinit P Tiger2 tiger2]"

text \<open>
  The macros \<open>ZBLAKE\<close>, ..., \<open>ZTIGER2\<close>: \<open>memcpy(&ctx_x, &z_x, sizeof(z_x))\<close> copies the
  whole global into the local context of the same primitive.
\<close>

definition zcopy :: "prim \<Rightarrow> zvar \<Rightarrow> 'c globals \<Rightarrow> 'c frame \<Rightarrow> 'c frame" where
  "zcopy p z g fr = fr\<lparr> ctx := (ctx fr)(p := zmem g z) \<rparr>"

definition ZBLAKE :: "'c globals \<Rightarrow> 'c frame \<Rightarrow> 'c frame" where
  "ZBLAKE = zcopy Blake512 z_blake"

definition ZSHA512 :: "'c globals \<Rightarrow> 'c frame \<Rightarrow> 'c frame" where
  "ZSHA512 = zcopy Sha512 z_sha"

definition ZBMW :: "'c globals \<Rightarrow> 'c frame \<Rightarrow> 'c frame" where
  "ZBMW = zcopy Bmw512 z_bmw"

definition ZGROESTL :: "'c globals \<Rightarrow> 'c frame \<Rightarrow> 'c frame" where
  "ZGROESTL = zcopy Groestl512 z_groestl"

definition ZJH :: "'c globals \<Rightarrow> 'c frame \<Rightarrow> 'c frame" where
  "ZJH = zcopy Jh512 z_jh"

definition ZKECCAK :: "'c globals \<Rightarrow> 'c frame \<Rightarrow> 'c frame" where
  "ZKECCAK = zcopy Keccak512 z_keccak"

definition ZSKEIN :: "'c globals \<Rightarrow> 'c frame \<Rightarrow> 'c frame" where
  "ZSKEIN = zcopy Skein512 z_skein"

definition ZLUFFA :: "'c globals \<Rightarrow> 'c frame \<Rightarrow> 'c frame" where
  "ZLUFFA = zcopy Luffa512 z_luffa"

definition ZTIGER :: "'c globals \<Rightarrow> 'c frame \<Rightarrow> 'c frame" where
  "ZTIGER = zcopy Tiger z_tiger"

definition ZRIPEMD :: "'c globals \<Rightarrow> 'c frame \<Rightarrow> 'c frame" where
  "ZRIPEMD = zcopy Ripemd160 z_ripemd"

definition ZCUBEHASH :: "'c globals \<Rightarrow> 'c frame \<Rightarrow> 'c frame" where
  "ZCUBEHASH = zcopy Cubehash512 z_cubehash"

definition ZPANAMA :: "'c globals \<Rightarrow> 'c frame \<Rightarrow> 'c frame" where
  "ZPANAMA = zcopy Panama z_panama"

definition ZSHAVITE :: "'c globals \<Rightarrow> 'c frame \<Rightarrow> 'c frame" where
  "ZSHAVITE = zcopy Shavite512 z_shavite"

definition ZSIMD :: "'c globals \<Rightarrow> 'c frame \<Rightarrow> 'c frame" where
  "ZSIMD = zcopy Simd512 z_simd"

definition ZECHO :: "'c globals \<Rightarrow> 'c frame \<Rightarrow> 'c frame" where
  "ZECHO = zcopy Echo512 z_echo"

definition ZHAMSI :: "'c globals \<Rightarrow> 'c frame \<Rightarrow> 'c frame" where
  "ZHAMSI = zcopy Hamsi512 z_hamsi"

definition ZFUGUE :: "'c globals \<Rightarrow> 'c frame \<Rightarrow> 'c frame" where
  "ZFUGUE = zcopy Fugue512 z_fugue"

definition ZSHABAL :: "'c globals \<Rightarrow> 'c frame \<Rightarrow> 'c frame" where
  "ZSHABAL = zcopy Shabal512 z_shabal"

definition ZHAVAL :: "'c globals \<Rightarrow> 'c frame \<Rightarrow> 'c frame" where
  "ZHAVAL g fr = fr\<lparr> ctx_haval := z_haval g \<rparr>"

definition ZWHIRLPOOL :: "'c globals \<Rightarrow> 'c frame \<Rightarrow> 'c frame" where
  "ZWHIRLPOOL = zcopy Whirlpool z_whirlpool"

definition ZLOWCUBE :: "'c globals \<Rightarrow> 'c frame \<Rightarrow> 'c frame" where
  "ZLOWCUBE = zcopy Cubehash384 z_lowcube"

definition ZWHIRLPOOL1 :: "'c globals \<Rightarrow> 'c frame \<Rightarrow> 'c frame" where
  "ZWHIRLPOOL1 = zcopy Whirlpool1 z_whirlpool1"

definition ZTIGER2 :: "'c globals \<Rightarrow> 'c frame \<Rightarrow> 'c frame" where
  "ZTIGER2 = zcopy Tiger2 z_tiger2"

section \<open>\<open>Hash9\<close>, the 5-step version\<close>

text \<open>
  The body of \<open>Hash9\<close> is a straight line of steps. Each line below is one
  \<open>init\<close>/\<open>update\<close>/\<open>close\<close> triple of the source, with the index of the buffer it reads
  and the index of the buffer it writes. The result is \<open>hash[4].trim256()\<close>. \<open>Hash9\<close> runs
  in a program state that holds the zero-state globals, so the model takes them and
  returns them with the result.
\<close>

definition Hash9_5_body :: "(prim \<Rightarrow> 'c sph_prim) \<Rightarrow> byte list \<Rightarrow> ('c frame \<Rightarrow> 'c frame) list" where
  "Hash9_5_body P m =
     [sph_first P Panama m 0,
      sph_next P Whirlpool 0 1,
      sph_next P Keccak512 1 2,
      sph_next P Panama 2 3,
      sph_next P Cubehash512 3 4]"

definition Hash9_5_frame ::
  "(prim \<Rightarrow> 'c sph_prim) \<Rightarrow> (nat \<Rightarrow> byte) \<Rightarrow> 'c stack \<Rightarrow> byte list \<Rightarrow> 'c frame" where
  "Hash9_5_frame P u stk m = run_seq (Hash9_5_body P m) (enter u stk 5)"

definition Hash9_5 ::
  "(prim \<Rightarrow> 'c sph_prim) \<Rightarrow> (nat \<Rightarrow> byte) \<Rightarrow> 'c stack \<Rightarrow> 'c globals \<Rightarrow> byte list
     \<Rightarrow> byte list \<times> 'c globals" where
  "Hash9_5 P u stk g m = (trim256 (hash (Hash9_5_frame P u stk m) ! 4), g)"

section \<open>\<open>Hash9\<close>, the 24-step version\<close>

definition Hash9_24_body :: "(prim \<Rightarrow> 'c sph_prim) \<Rightarrow> byte list \<Rightarrow> ('c frame \<Rightarrow> 'c frame) list" where
  "Hash9_24_body P m =
     [sph_first P Whirlpool1 m 0,
      sph_next P Bmw512 0 1,
      sph_next P Groestl512 1 2,
      sph_next P Echo512 2 3,
      sph_next P Hamsi512 3 4,
      sph_next P Fugue512 4 5,
      sph_next P Shabal512 5 6,
      sph_next P Jh512 6 7,
      sph_next P Keccak512 7 8,
      sph_next P Skein512 8 9,
      sph_next P Luffa512 9 10,
      sph_next P Tiger 10 11,
      sph_next P Cubehash512 11 12,
      sph_next P Panama 12 13,
      sph_next P Sha512 13 14,
      sph_next P Shavite512 14 15,
      sph_next P Simd512 15 16,
      sph_next P Blake512 16 17,
      sph_next P Ripemd160 17 18,
      haval_next 18 19,
      sph_next P Cubehash384 19 20,
      sph_next P Whirlpool1 20 21,
      sph_next P Tiger2 21 22,
      sph_next P Whirlpool 22 23]"

definition Hash9_24_frame ::
  "(prim \<Rightarrow> 'c sph_prim) \<Rightarrow> (nat \<Rightarrow> byte) \<Rightarrow> 'c stack \<Rightarrow> byte list \<Rightarrow> 'c frame" where
  "Hash9_24_frame P u stk m = run_seq (Hash9_24_body P m) (enter u stk 24)"

definition Hash9_24 ::
  "(prim \<Rightarrow> 'c sph_prim) \<Rightarrow> (nat \<Rightarrow> byte) \<Rightarrow> 'c stack \<Rightarrow> 'c globals \<Rightarrow> byte list
     \<Rightarrow> byte list \<times> 'c globals" where
  "Hash9_24 P u stk g m = (trim256 (hash (Hash9_24_frame P u stk m) ! 23), g)"

section \<open>The chain as the specification describes it\<close>

text \<open>
  The generalised algorithm of the specification, for a list of primitives: step 1
  hashes the message, step \<open>i > 1\<close> hashes the previous Wide Digest Buffer, and the
  result is the last buffer truncated to 256 bits. Steps and buffers are counted from 0
  here, so step \<open>k\<close> writes buffer \<open>k\<close>.
\<close>

definition chain_step ::
  "(prim \<Rightarrow> 'c sph_prim) \<Rightarrow> byte list \<Rightarrow> nat \<times> prim \<Rightarrow> 'c frame \<Rightarrow> 'c frame" where
  "chain_step P m kp fr =
     (let k = fst kp; p = snd kp;
          data = (if k = 0 then m else take 64 (hash fr ! (k - 1)))
      in if p = Haval256_5 then haval_hash data k fr else sph_hash P p data k fr)"

fun computeChain ::
  "(prim \<Rightarrow> 'c sph_prim) \<Rightarrow> byte list \<Rightarrow> nat \<Rightarrow> prim list \<Rightarrow> 'c frame \<Rightarrow> 'c frame" where
  "computeChain P m k [] fr = fr"
| "computeChain P m k (p # ps) fr = computeChain P m (Suc k) ps (chain_step P m (k, p) fr)"

definition computeChainHash ::
  "(prim \<Rightarrow> 'c sph_prim) \<Rightarrow> (nat \<Rightarrow> byte) \<Rightarrow> 'c stack \<Rightarrow> prim list \<Rightarrow> byte list \<Rightarrow> byte list" where
  "computeChainHash P u stk steps m =
     take 32 (hash (computeChain P m 0 steps (enter u stk (length steps))) ! (length steps - 1))"

definition steps_5 :: "prim list" where
  "steps_5 = [Panama, Whirlpool, Keccak512, Panama, Cubehash512]"

definition steps_24 :: "prim list" where
  "steps_24 =
     [Whirlpool1, Bmw512, Groestl512, Echo512, Hamsi512, Fugue512, Shabal512, Jh512,
      Keccak512, Skein512, Luffa512, Tiger, Cubehash512, Panama, Sha512, Shavite512,
      Simd512, Blake512, Ripemd160, Haval256_5, Cubehash384, Whirlpool1, Tiger2, Whirlpool]"

text \<open>
  What the chain needs of a primitive that is a parameter: the digest of a run does not
  depend on what the context held before \<open>init\<close>.
\<close>

definition init_resets :: "'c sph_prim \<Rightarrow> bool" where
  "init_resets Q \<longleftrightarrow> (\<forall>c c' data. snd (sph_run Q c data) = snd (sph_run Q c' data))"

section \<open>Concrete instances\<close>

text \<open>
  Instances at which the theorems below are evaluated. HAVAL-256/5 is the one primitive
  whose code is among the sources, so it stands in for every parameter primitive.
  \<open>zero_ctx\<close> is a context of zero bytes, what an object with static storage holds at
  process start; \<open>ones_ctx\<close> is a context of other bytes.
\<close>

definition all_haval :: "prim \<Rightarrow> sph_haval_context sph_prim" where
  "all_haval p = haval256_5_prim"

definition zero_ctx :: sph_haval_context where
  "zero_ctx =
     \<lparr> buf = replicate 128 0, s0 = 0, s1 = 0, s2 = 0, s3 = 0, s4 = 0, s5 = 0, s6 = 0, s7 = 0,
       olen = 0, passes = 0, count = 0 \<rparr>"

definition ones_ctx :: sph_haval_context where
  "ones_ctx =
     \<lparr> buf = replicate 128 255, s0 = 1, s1 = 1, s2 = 1, s3 = 1, s4 = 1, s5 = 1, s6 = 1, s7 = 1,
       olen = 1, passes = 1, count = 1 \<rparr>"

definition u_zero :: "nat \<Rightarrow> byte" where
  "u_zero i = 0"

definition stack_zero :: "sph_haval_context stack" where
  "stack_zero = \<lparr> stack_ctx = (\<lambda>p. zero_ctx), stack_haval = zero_ctx \<rparr>"

definition stack_ones :: "sph_haval_context stack" where
  "stack_ones = \<lparr> stack_ctx = (\<lambda>p. ones_ctx), stack_haval = ones_ctx \<rparr>"

definition globals_zero :: "sph_haval_context globals" where
  "globals_zero = \<lparr> zmem = (\<lambda>z. zero_ctx), z_haval = zero_ctx \<rparr>"

section \<open>Notions used in the proofs\<close>

text \<open>The data a step reads and the digest it writes, for either kind of step.\<close>

definition step_data :: "byte list \<Rightarrow> nat \<Rightarrow> 'c frame \<Rightarrow> byte list" where
  "step_data m k fr = (if k = 0 then m else take 64 (hash fr ! (k - 1)))"

definition step_digest :: "(prim \<Rightarrow> 'c sph_prim) \<Rightarrow> prim \<Rightarrow> 'c frame \<Rightarrow> byte list \<Rightarrow> byte list" where
  "step_digest P p fr data =
     (if p = Haval256_5 then snd (sph_run haval256_5_prim (ctx_haval fr) data)
      else snd (sph_run (P p) (ctx fr p) data))"

text \<open>
  After the steps \<open>ps\<close>, run from a frame whose \<open>N\<close> buffers all hold \<open>B\<close>: one call per
  step, buffer \<open>i\<close> holds the digest of step \<open>i\<close> written over \<open>B\<close>, the buffers of later
  steps still hold \<open>B\<close>, and step \<open>i\<close> has read the message (\<open>i = 0\<close>) or 64 bytes of
  buffer \<open>i - 1\<close>.
\<close>

definition chain_inv :: "byte list \<Rightarrow> byte list \<Rightarrow> nat \<Rightarrow> prim list \<Rightarrow> 'c frame \<Rightarrow> bool" where
  "chain_inv B m N ps fr \<longleftrightarrow>
     length (hash fr) = N \<and> length ps \<le> N \<and> map fst (calls fr) = ps
     \<and> (\<forall>i. length ps \<le> i \<and> i < N \<longrightarrow> hash fr ! i = B)
     \<and> (\<forall>i < length ps. hash fr ! i = write_at B 0 (snd (snd (calls fr ! i))))
     \<and> (\<forall>i < length ps.
           fst (snd (calls fr ! i)) = (if i = 0 then m else take 64 (hash fr ! (i - 1))))"

text \<open>Two frames with the same buffers and the same recorded runs.\<close>

definition same_out :: "'c frame \<Rightarrow> 'c frame \<Rightarrow> bool" where
  "same_out fr fr' \<longleftrightarrow> hash fr = hash fr' \<and> calls fr = calls fr'"

text \<open>Every recorded HAVAL run wrote 32 bytes.\<close>

definition haval_calls_ok :: "'c frame \<Rightarrow> bool" where
  "haval_calls_ok fr \<longleftrightarrow>
     (\<forall>c \<in> set (calls fr). fst c = Haval256_5 \<longrightarrow> length (snd (snd c)) = 32)"

section \<open>The optimised step functions against the reference paper\<close>

text \<open>
  Both forms are bitwise, so each equation is decided bit by bit: at bit \<open>n\<close> both
  sides are boolean functions of the seven bits \<open>bit x0 n\<close>, ..., \<open>bit x6 n\<close>.
\<close>

lemma F1_bit:
  "n < 32 \<Longrightarrow> bit (F1 x6 x5 x4 x3 x2 x1 x0) n = bit (F1_ref x6 x5 x4 x3 x2 x1 x0) n"
  unfolding F1_def F1_ref_def
  by (cases "bit x0 n"; cases "bit x1 n"; cases "bit x4 n")
     (simp_all add: bit_and_iff bit_xor_iff)

lemma F2_bit:
  "n < 32 \<Longrightarrow> bit (F2 x6 x5 x4 x3 x2 x1 x0) n = bit (F2_ref x6 x5 x4 x3 x2 x1 x0) n"
  unfolding F2_def F2_ref_def
  by (cases "bit x0 n"; cases "bit x1 n"; cases "bit x2 n"; cases "bit x3 n";
      cases "bit x4 n"; cases "bit x5 n"; cases "bit x6 n")
     (simp_all add: bit_and_iff bit_xor_iff bit_not_iff)

lemma F3_bit:
  "n < 32 \<Longrightarrow> bit (F3 x6 x5 x4 x3 x2 x1 x0) n = bit (F3_ref x6 x5 x4 x3 x2 x1 x0) n"
  unfolding F3_def F3_ref_def
  by (cases "bit x0 n"; cases "bit x1 n"; cases "bit x2 n"; cases "bit x3 n";
      cases "bit x4 n"; cases "bit x5 n"; cases "bit x6 n")
     (simp_all add: bit_and_iff bit_xor_iff)

lemma F4_bit:
  "n < 32 \<Longrightarrow> bit (F4 x6 x5 x4 x3 x2 x1 x0) n = bit (F4_ref x6 x5 x4 x3 x2 x1 x0) n"
  unfolding F4_def F4_ref_def
  by (cases "bit x0 n"; cases "bit x1 n"; cases "bit x2 n"; cases "bit x3 n";
      cases "bit x4 n"; cases "bit x5 n"; cases "bit x6 n")
     (simp_all add: bit_and_iff bit_xor_iff bit_or_iff bit_not_iff)

lemma F5_bit:
  "n < 32 \<Longrightarrow> bit (F5 x6 x5 x4 x3 x2 x1 x0) n = bit (F5_ref x6 x5 x4 x3 x2 x1 x0) n"
  unfolding F5_def F5_ref_def
  by (cases "bit x0 n"; cases "bit x1 n"; cases "bit x2 n"; cases "bit x3 n";
      cases "bit x4 n"; cases "bit x5 n"; cases "bit x6 n")
     (simp_all add: bit_and_iff bit_xor_iff bit_not_iff)

text \<open>
  C9. For all 32-bit words \<open>x0\<close>, ..., \<open>x6\<close>, each optimised HAVAL step function
  \<open>F1\<close>, ..., \<open>F5\<close> of the header equals the basic definition from the reference paper
  that the comment in front of it reproduces.
\<close>

theorem haval_F_optimised_eq_reference:
  "F1 x6 x5 x4 x3 x2 x1 x0 = F1_ref x6 x5 x4 x3 x2 x1 x0
   \<and> F2 x6 x5 x4 x3 x2 x1 x0 = F2_ref x6 x5 x4 x3 x2 x1 x0
   \<and> F3 x6 x5 x4 x3 x2 x1 x0 = F3_ref x6 x5 x4 x3 x2 x1 x0
   \<and> F4 x6 x5 x4 x3 x2 x1 x0 = F4_ref x6 x5 x4 x3 x2 x1 x0
   \<and> F5 x6 x5 x4 x3 x2 x1 x0 = F5_ref x6 x5 x4 x3 x2 x1 x0"
proof (intro conjI)
  show "F1 x6 x5 x4 x3 x2 x1 x0 = F1_ref x6 x5 x4 x3 x2 x1 x0"
    by (rule bit_eqI) (simp add: F1_bit possible_bit_def)
  show "F2 x6 x5 x4 x3 x2 x1 x0 = F2_ref x6 x5 x4 x3 x2 x1 x0"
    by (rule bit_eqI) (simp add: F2_bit possible_bit_def)
  show "F3 x6 x5 x4 x3 x2 x1 x0 = F3_ref x6 x5 x4 x3 x2 x1 x0"
    by (rule bit_eqI) (simp add: F3_bit possible_bit_def)
  show "F4 x6 x5 x4 x3 x2 x1 x0 = F4_ref x6 x5 x4 x3 x2 x1 x0"
    by (rule bit_eqI) (simp add: F4_bit possible_bit_def)
  show "F5 x6 x5 x4 x3 x2 x1 x0 = F5_ref x6 x5 x4 x3 x2 x1 x0"
    by (rule bit_eqI) (simp add: F5_bit possible_bit_def)
qed

section \<open>Facts about memory and the counter\<close>

lemma write_at_take: "take (off + length src) (write_at b off src) = take off b @ src"
  by (cases "off \<le> length b") (simp_all add: write_at_def)

lemma unat_and_127: "unat ((w :: sph_u64) AND 127) < 128"
proof -
  have "w AND 127 \<le> 127" by (rule word_and_le1)
  then have "unat (w AND 127) \<le> unat (127 :: sph_u64)" by (simp add: word_le_nat_alt)
  then show ?thesis by simp
qed

lemma haval_update_Nil [simp]: "haval_update core sc [] = sc"
  by (simp add: haval_update.simps)

lemma haval_update_step:
  "data \<noteq> [] \<Longrightarrow>
   haval_update core sc data
   = haval_update core (haval_round core sc data) (drop (haval_clen sc data) data)"
  by (simp add: haval_update.simps [of core sc data])

lemma unat_and_127_mod: "unat ((w :: sph_u64) AND 127) = unat w mod 128"
proof -
  have "(127 :: sph_u64) = mask 7" by (simp add: mask_eq_exp_minus_1)
  then have "w AND 127 = take_bit 7 w" by (simp only: take_bit_eq_mask)
  then have "unat (w AND 127) = unat (take_bit 7 w)" by (rule arg_cong)
  also have "\<dots> = take_bit 7 (unat w)" by (rule unsigned_take_bit_eq)
  also have "\<dots> = unat w mod 2 ^ 7" by (rule take_bit_eq_mod)
  finally show ?thesis by simp
qed

lemma mod_128_of_mod_2_64: "(n :: nat) mod 2 ^ 64 mod 128 = n mod 128"
proof -
  have "(128 :: nat) dvd 2 ^ 64" by simp
  then show ?thesis by (rule mod_mod_cancel)
qed

lemma unat_count_add:
  "unat ((w + of_nat k :: sph_u64) AND 127) = (unat (w AND 127) + k) mod 128"
proof -
  have "unat (w + of_nat k) = (unat w + k mod 2 ^ 64) mod 2 ^ 64"
    by (simp add: unat_word_ariths unat_of_nat)
  then have "unat (w + of_nat k) mod 128 = (unat w + k mod 2 ^ 64) mod 128"
    by (simp only: mod_128_of_mod_2_64)
  also have "\<dots> = (unat w mod 128 + k mod 2 ^ 64 mod 128) mod 128"
    by (rule mod_add_eq [symmetric])
  also have "\<dots> = (unat w mod 128 + k mod 128) mod 128"
    by (simp only: mod_128_of_mod_2_64)
  also have "\<dots> = (unat w mod 128 + k) mod 128"
    by (rule mod_add_right_eq)
  finally show ?thesis by (simp only: unat_and_127_mod)
qed

section \<open>HAVAL reads only the pending bytes of its buffer\<close>

lemma read_at_take_128:
  "i < 32 \<Longrightarrow> read_at (take 128 b) (4 * i) 4 = read_at b (4 * i) 4"
  by (simp add: read_at_def drop_take)

lemma IN_PREPARE_take: "IN_PREPARE (take 128 b) = IN_PREPARE b"
  by (simp add: IN_PREPARE_def read_at_take_128)

lemma IN_PREPARE_cong: "take 128 a = take 128 b \<Longrightarrow> IN_PREPARE a = IN_PREPARE b"
  by (metis IN_PREPARE_take)

lemma RSTATE_WSTATE: "RSTATE (WSTATE sc r) = r"
  by (cases "(sc, r)" rule: WSTATE.cases) (simp add: RSTATE_def)

lemma WSTATE_frame:
  "buf (WSTATE sc r) = buf sc \<and> olen (WSTATE sc r) = olen sc
   \<and> passes (WSTATE sc r) = passes sc \<and> count (WSTATE sc r) = count sc"
  by (cases "(sc, r)" rule: WSTATE.cases) simp

lemma haval_block_frame:
  "buf (haval_block core sc) = buf sc \<and> olen (haval_block core sc) = olen sc
   \<and> passes (haval_block core sc) = passes sc \<and> count (haval_block core sc) = count sc"
  by (simp add: haval_block_def WSTATE_frame)

lemma haval_block_RSTATE:
  "RSTATE (haval_block core sc) = core (IN_PREPARE (buf sc)) (RSTATE sc)"
  by (simp add: haval_block_def RSTATE_WSTATE)

lemma RSTATE_buf_update [simp]: "RSTATE (sc\<lparr>buf := b\<rparr>) = RSTATE sc"
  by (simp add: RSTATE_def)

lemma RSTATE_count_update [simp]: "RSTATE (sc\<lparr>count := c\<rparr>) = RSTATE sc"
  by (simp add: RSTATE_def)

lemma haval_block_cong:
  assumes "RSTATE a = RSTATE b" and "take 128 (buf a) = take 128 (buf b)"
  shows "RSTATE (haval_block core a) = RSTATE (haval_block core b)"
  using assms by (simp add: haval_block_RSTATE IN_PREPARE_cong [of "buf a" "buf b"])

lemma haval_out_cong:
  "RSTATE a = RSTATE b \<Longrightarrow> olen a = olen b \<Longrightarrow> haval_out a = haval_out b"
  by (simp add: RSTATE_def haval_out_def)

lemma haval_same_refl: "haval_same a a"
  by (simp add: haval_same_def)

lemma haval_same_sym: "haval_same a b \<Longrightarrow> haval_same b a"
  by (simp add: haval_same_def)

lemma haval_same_trans: "haval_same a b \<Longrightarrow> haval_same b c \<Longrightarrow> haval_same a c"
  by (simp add: haval_same_def)

lemma haval_same_clen: "haval_same a b \<Longrightarrow> haval_clen a d = haval_clen b d"
  by (simp add: haval_same_def haval_clen_def)

lemma haval_init_same: "haval_same (haval_init a ol ps) (haval_init b ol ps)"
  by (simp add: haval_same_def haval_init_def RSTATE_def pending_def)

lemma haval_round_same:
  assumes "haval_same a b"
  shows "haval_same (haval_round core a d) (haval_round core b d)"
proof -
  define cur where "cur = unat (count a AND 127)"
  define clen where "clen = haval_clen a d"
  define chunk where "chunk = take clen d"
  define a1 where "a1 = a\<lparr>buf := write_at (buf a) cur chunk\<rparr>"
  define b1 where "b1 = b\<lparr>buf := write_at (buf b) cur chunk\<rparr>"
  define a2 where "a2 = (if cur + clen = 128 then haval_block core a1 else a1)"
  define b2 where "b2 = (if cur + clen = 128 then haval_block core b1 else b1)"
  from assms have cnt: "count b = count a" and pen: "take cur (buf a) = take cur (buf b)"
    and regs: "RSTATE a = RSTATE b" and par: "olen a = olen b" "passes a = passes b"
    by (auto simp add: haval_same_def pending_def cur_def)
  have clen_b: "haval_clen b d = clen"
    using assms by (simp add: clen_def haval_same_clen)
  have cur_lt: "cur < 128" by (simp add: cur_def unat_and_127)
  have clen_le: "clen \<le> 128 - cur" and len_chunk: "length chunk = clen"
    by (simp_all add: clen_def chunk_def haval_clen_def cur_def)
  have ra: "haval_round core a d = a2\<lparr>count := count a2 + of_nat clen\<rparr>"
    by (simp add: haval_round_def Let_def a2_def a1_def chunk_def clen_def cur_def)
  have rb: "haval_round core b d = b2\<lparr>count := count b2 + of_nat clen\<rparr>"
    by (simp add: haval_round_def Let_def b2_def b1_def chunk_def clen_b cnt cur_def)
  have filled: "take (cur + clen) (buf a1) = take (cur + clen) (buf b1)"
    using write_at_take [of cur chunk "buf a"] write_at_take [of cur chunk "buf b"] pen len_chunk
    by (simp add: a1_def b1_def)
  have bufs: "buf a2 = buf a1" "buf b2 = buf b1"
    by (simp_all add: a2_def b2_def haval_block_frame)
  have frame: "olen a2 = olen b2" "passes a2 = passes b2" "count a2 = count a" "count b2 = count a"
    using par cnt by (simp_all add: a2_def b2_def a1_def b1_def haval_block_frame)
  have regs2: "RSTATE a2 = RSTATE b2"
  proof (cases "cur + clen = 128")
    case True
    have "RSTATE a1 = RSTATE b1" using regs by (simp add: a1_def b1_def)
    moreover from True filled have "take 128 (buf a1) = take 128 (buf b1)" by simp
    ultimately have "RSTATE (haval_block core a1) = RSTATE (haval_block core b1)"
      by (rule haval_block_cong)
    then show ?thesis using True by (simp add: a2_def b2_def)
  next
    case False
    then show ?thesis using regs by (simp add: a2_def b2_def a1_def b1_def)
  qed
  define new where "new = unat ((count a + of_nat clen) AND 127)"
  have "new = (cur + clen) mod 128" by (simp add: new_def cur_def unat_count_add)
  then have new_le: "new \<le> cur + clen" by simp
  have "take new (buf a1) = take new (take (cur + clen) (buf a1))"
    using new_le by (simp add: min_absorb1)
  also have "\<dots> = take new (take (cur + clen) (buf b1))" by (simp only: filled)
  also have "\<dots> = take new (buf b1)" using new_le by (simp add: min_absorb1)
  finally have pen2: "take new (buf a1) = take new (buf b1)" .
  show ?thesis
    unfolding ra rb using regs2 frame pen2 bufs
    by (simp add: haval_same_def pending_def new_def)
qed

lemma haval_update_same:
  "haval_same a b \<Longrightarrow> haval_same (haval_update core a d) (haval_update core b d)"
proof (induction core a d arbitrary: b rule: haval_update.induct)
  case (1 core sc data)
  show ?case
  proof (cases "data = []")
    case True
    with "1.prems" show ?thesis by simp
  next
    case False
    have same: "haval_same (haval_round core sc data) (haval_round core b data)"
      using "1.prems" by (rule haval_round_same)
    have clen: "haval_clen b data = haval_clen sc data"
      using "1.prems" by (simp add: haval_same_clen)
    have "haval_same (haval_update core (haval_round core sc data) (drop (haval_clen sc data) data))
            (haval_update core (haval_round core b data) (drop (haval_clen sc data) data))"
      using False same by (rule "1.IH")
    then show ?thesis
      using False clen by (simp add: haval_update_step)
  qed
qed

lemma write_at_take_eq:
  assumes "take off x = take off y"
  shows "take (off + length src) (write_at x off src) = take (off + length src) (write_at y off src)"
  using assms by (simp add: write_at_take)

lemma haval_close_same:
  assumes "haval_same a b"
  shows "snd (haval_close core PASSES a ub n) = snd (haval_close core PASSES b ub n)
         \<and> haval_same (fst (haval_close core PASSES a ub n)) (fst (haval_close core PASSES b ub n))"
proof -
  define cur where "cur = unat (count a AND 127)"
  define pad :: "byte list"
    where "pad = [ucast (push_bit n (1 :: 32 word) OR drop_bit (8 - n) (ub AND 0xFF))]"
  define cur1 where "cur1 = cur + 1"
  define cur2 where "cur2 = (if cur1 > 118 then 0 else cur1)"
  define p118 :: "byte list" where "p118 = [ucast (1 OR push_bit 3 PASSES)]"
  define p119 :: "byte list" where "p119 = [ucast (push_bit 3 (olen a))]"
  define plen where "plen = sph_enc64le (push_bit 3 (count a))"
  define a1 where "a1 = a\<lparr>buf := write_at (buf a) cur pad\<rparr>"
  define b1 where "b1 = b\<lparr>buf := write_at (buf b) cur pad\<rparr>"
  define a1' where "a1' = a1\<lparr>buf := write_at (buf a1) cur1 (replicate (128 - cur1) 0)\<rparr>"
  define b1' where "b1' = b1\<lparr>buf := write_at (buf b1) cur1 (replicate (128 - cur1) 0)\<rparr>"
  define a2 where "a2 = (if cur1 > 118 then haval_block core a1' else a1)"
  define b2 where "b2 = (if cur1 > 118 then haval_block core b1' else b1)"
  define a3 where "a3 = a2\<lparr>buf := write_at (buf a2) cur2 (replicate (118 - cur2) 0)\<rparr>"
  define b3 where "b3 = b2\<lparr>buf := write_at (buf b2) cur2 (replicate (118 - cur2) 0)\<rparr>"
  define a4 where "a4 = a3\<lparr>buf := write_at (buf a3) 118 p118\<rparr>"
  define b4 where "b4 = b3\<lparr>buf := write_at (buf b3) 118 p118\<rparr>"
  define a5 where "a5 = a4\<lparr>buf := write_at (buf a4) 119 p119\<rparr>"
  define b5 where "b5 = b4\<lparr>buf := write_at (buf b4) 119 p119\<rparr>"
  define a6 where "a6 = a5\<lparr>buf := write_at (buf a5) 120 plen\<rparr>"
  define b6 where "b6 = b5\<lparr>buf := write_at (buf b5) 120 plen\<rparr>"
  define a7 where "a7 = haval_block core a6"
  define b7 where "b7 = haval_block core b6"
  from assms have cnt: "count b = count a" and ol: "olen b = olen a" and ps: "passes b = passes a"
    and regs: "RSTATE a = RSTATE b" and pen: "take cur (buf a) = take cur (buf b)"
    by (auto simp add: haval_same_def pending_def cur_def)
  have cur_lt: "cur < 128" by (simp add: cur_def unat_and_127)
  \<comment> \<open>the parameters and the counter are not touched before the reinitialisation\<close>
  have fr_a2: "olen a2 = olen a" "passes a2 = passes a" "count a2 = count a"
    by (simp_all add: a2_def a1'_def a1_def haval_block_frame)
  have fr_b2: "olen b2 = olen a" "passes b2 = passes a" "count b2 = count a"
    by (simp_all add: b2_def b1'_def b1_def haval_block_frame ol ps cnt)
  have fr_a6: "olen a6 = olen a" "passes a6 = passes a" "count a6 = count a"
    by (simp_all add: a6_def a5_def a4_def a3_def fr_a2)
  have fr_b6: "olen b6 = olen a" "passes b6 = passes a" "count b6 = count a"
    by (simp_all add: b6_def b5_def b4_def b3_def fr_b2)
  have fr_a7: "olen a7 = olen a" "passes a7 = passes a"
    by (simp_all add: a7_def haval_block_frame fr_a6)
  have fr_b7: "olen b7 = olen a" "passes b7 = passes a"
    by (simp_all add: b7_def haval_block_frame fr_b6)
  \<comment> \<open>unfolding the definition on both sides\<close>
  have ca: "haval_close core PASSES a ub n = (haval_init a7 (olen a7) (passes a7), haval_out a7)"
    by (simp add: haval_close_def Let_def a7_def a6_def a5_def a4_def a3_def a2_def a1'_def a1_def
        cur2_def cur1_def cur_def pad_def p118_def p119_def plen_def haval_block_frame)
  have cb: "haval_close core PASSES b ub n = (haval_init b7 (olen b7) (passes b7), haval_out b7)"
    by (simp add: haval_close_def Let_def b7_def b6_def b5_def b4_def b3_def b2_def b1'_def b1_def
        cur2_def cur1_def cur_def pad_def p118_def p119_def plen_def haval_block_frame cnt ol)
  \<comment> \<open>the written prefixes agree\<close>
  have t1: "take cur1 (buf a1) = take cur1 (buf b1)"
    using write_at_take_eq [OF pen, of pad] by (simp add: a1_def b1_def cur1_def pad_def)
  have t2: "take cur2 (buf a2) = take cur2 (buf b2) \<and> RSTATE a2 = RSTATE b2"
  proof (cases "cur1 > 118")
    case True
    have "take (cur1 + length (replicate (128 - cur1) (0 :: byte))) (buf a1')
          = take (cur1 + length (replicate (128 - cur1) (0 :: byte))) (buf b1')"
      unfolding a1'_def b1'_def
      using write_at_take_eq [OF t1, of "replicate (128 - cur1) 0"] by simp
    moreover have "cur1 \<le> 128" using cur_lt by (simp add: cur1_def)
    ultimately have blk: "take 128 (buf a1') = take 128 (buf b1')" by simp
    have "RSTATE a1' = RSTATE b1'" using regs by (simp add: a1'_def b1'_def a1_def b1_def)
    then have "RSTATE (haval_block core a1') = RSTATE (haval_block core b1')"
      using blk by (rule haval_block_cong)
    with True show ?thesis by (simp add: a2_def b2_def cur2_def)
  next
    case False
    with t1 regs show ?thesis by (simp add: a2_def b2_def cur2_def a1_def b1_def)
  qed
  have cur2_le: "cur2 \<le> 118" by (simp add: cur2_def)
  have "take (cur2 + length (replicate (118 - cur2) (0 :: byte))) (buf a3)
        = take (cur2 + length (replicate (118 - cur2) (0 :: byte))) (buf b3)"
    unfolding a3_def b3_def using write_at_take_eq [of cur2 "buf a2" "buf b2" "replicate (118 - cur2) 0"] t2 by simp
  with cur2_le have t3: "take 118 (buf a3) = take 118 (buf b3)" by simp
  have t4: "take 119 (buf a4) = take 119 (buf b4)"
    using write_at_take_eq [OF t3, of p118] by (simp add: a4_def b4_def p118_def)
  have t5: "take 120 (buf a5) = take 120 (buf b5)"
    using write_at_take_eq [OF t4, of p119] by (simp add: a5_def b5_def p119_def)
  have "length plen = 8" by (simp add: plen_def sph_enc64le_def)
  then have t6: "take 128 (buf a6) = take 128 (buf b6)"
    using write_at_take_eq [OF t5, of plen] by (simp add: a6_def b6_def)
  have "RSTATE a6 = RSTATE b6"
    using t2 by (simp add: a6_def b6_def a5_def b5_def a4_def b4_def a3_def b3_def)
  then have r7: "RSTATE a7 = RSTATE b7"
    unfolding a7_def b7_def using t6 by (rule haval_block_cong)
  have "haval_out a7 = haval_out b7"
    using r7 by (rule haval_out_cong) (simp add: fr_a7 fr_b7)
  moreover have "haval_same (haval_init a7 (olen a7) (passes a7)) (haval_init b7 (olen b7) (passes b7))"
    by (simp add: fr_a7 fr_b7 haval_init_same)
  ultimately show ?thesis by (simp add: ca cb)
qed

section \<open>HAVAL: closing reinitialises the context\<close>

lemma haval_round_params:
  "olen (haval_round core sc d) = olen sc \<and> passes (haval_round core sc d) = passes sc"
  by (simp add: haval_round_def Let_def haval_block_frame)

lemma haval_update_params:
  "olen (haval_update core sc d) = olen sc \<and> passes (haval_update core sc d) = passes sc"
proof (induction core sc d rule: haval_update.induct)
  case (1 core sc data)
  show ?case
  proof (cases "data = []")
    case True
    then show ?thesis by simp
  next
    case False
    with "1.IH" show ?thesis
      by (simp add: haval_update_step haval_round_params)
  qed
qed


lemma haval_close_shape:
  "\<exists>x. haval_close core PASSES sc ub n = (haval_init x (olen sc) (passes sc), haval_out x)
       \<and> olen x = olen sc"
proof -
  define cur where "cur = unat (count sc AND 127)"
  define a1 where "a1 = sc\<lparr>buf := write_at (buf sc) cur
      [ucast (push_bit n (1 :: 32 word) OR drop_bit (8 - n) (ub AND 0xFF))]\<rparr>"
  define a2 where "a2 = (if cur + 1 > 118
      then haval_block core (a1\<lparr>buf := write_at (buf a1) (cur + 1) (replicate (128 - (cur + 1)) 0)\<rparr>)
      else a1)"
  define cur2 where "cur2 = (if cur + 1 > 118 then 0 else cur + 1)"
  define a3 where "a3 = a2\<lparr>buf := write_at (buf a2) cur2 (replicate (118 - cur2) 0)\<rparr>"
  define a4 where "a4 = a3\<lparr>buf := write_at (buf a3) 118 [ucast (1 OR push_bit 3 PASSES)]\<rparr>"
  define a5 where "a5 = a4\<lparr>buf := write_at (buf a4) 119 [ucast (push_bit 3 (olen a4))]\<rparr>"
  define a6 where "a6 = a5\<lparr>buf := write_at (buf a5) 120 (sph_enc64le (push_bit 3 (count a5)))\<rparr>"
  define a7 where "a7 = haval_block core a6"
  have "olen a2 = olen sc" "passes a2 = passes sc"
    by (simp_all add: a2_def a1_def haval_block_frame)
  then have "olen a6 = olen sc" "passes a6 = passes sc"
    by (simp_all add: a6_def a5_def a4_def a3_def)
  then have par: "olen a7 = olen sc" "passes a7 = passes sc"
    by (simp_all add: a7_def haval_block_frame)
  have "haval_close core PASSES sc ub n = (haval_init a7 (olen a7) (passes a7), haval_out a7)"
    unfolding haval_close_def Let_def a7_def a6_def a5_def a4_def a3_def cur2_def a2_def a1_def cur_def
    by (rule refl)
  then have "haval_close core PASSES sc ub n = (haval_init a7 (olen sc) (passes sc), haval_out a7)
      \<and> olen a7 = olen sc"
    by (simp add: par)
  then show ?thesis by (rule exI)
qed



lemma haval_out_length: "olen x = 8 \<Longrightarrow> length (haval_out x) = 32"
  by (simp add: haval_out_def sph_enc32le_def)

lemma haval256_5_digest_length: "length (snd (sph_run haval256_5_prim c data)) = 32"
proof -
  define cc where "cc = sph_haval256_5 (sph_haval256_5_init c) data"
  have ol: "olen cc = 8"
    by (simp add: cc_def sph_haval256_5_def sph_haval256_5_init_def haval_update_params
        haval_init_def)
  obtain x where "haval_close CORE5 5 cc 0 0 = (haval_init x (olen cc) (passes cc), haval_out x)"
    and "olen x = olen cc"
    using haval_close_shape by blast
  then have "length (snd (haval_close CORE5 5 cc 0 0)) = 32"
    using ol by (simp add: haval_out_length)
  then show ?thesis
    by (simp add: sph_run_def haval256_5_prim_def sph_haval256_5_close_def cc_def)
qed

lemma haval_digest_same:
  assumes "haval_same a b"
  shows "snd (haval_close core PASSES (haval_update core a data) ub n)
         = snd (haval_close core PASSES (haval_update core b data) ub n)"
proof -
  from assms have "haval_same (haval_update core a data) (haval_update core b data)"
    by (rule haval_update_same)
  then show ?thesis using haval_close_same by blast
qed

text \<open>
  C8. Calling update with no bytes is a no-op: the context comes back as it was, state
  vector, counter and buffer included. This holds for every compression function
  \<open>core\<close>, so none was applied; \<open>sph_haval256_5\<close> is the instance \<open>CORE5\<close>.
\<close>

theorem haval_update_empty_noop:
  "haval_update core sc [] = sc
   \<and> sph_haval256_5 sc [] = sc
   \<and> RSTATE (sph_haval256_5 sc []) = RSTATE sc
   \<and> count (sph_haval256_5 sc []) = count sc
   \<and> buf (sph_haval256_5 sc []) = buf sc"
  by (simp add: sph_haval256_5_def)


section \<open>A published test vector\<close>

text \<open>
  HAVAL-256/5 of the empty message, computed by \<open>init\<close>, an empty \<open>update\<close> and \<open>close\<close>
  on a zero context, is the published digest
  \<open>BE417BB4DD5CFB76C7126F4F8EEB1553A449039307B1A3CD451DBFDC0FBBE330\<close>: the padding
  modelled in \<open>haval_close\<close> and the transcription of the compression function agree with
  the reference implementation on this input.
\<close>

lemma haval256_5_empty_message:
  "snd (sph_run haval256_5_prim zero_ctx [])
   = [0xBE, 0x41, 0x7B, 0xB4, 0xDD, 0x5C, 0xFB, 0x76, 0xC7, 0x12, 0x6F, 0x4F, 0x8E, 0xEB,
      0x15, 0x53, 0xA4, 0x49, 0x03, 0x93, 0x07, 0xB1, 0xA3, 0xCD, 0x45, 0x1D, 0xBF, 0xDC,
      0x0F, 0xBB, 0xE3, 0x30]"
  by code_simp

section \<open>One step of the chain\<close>

lemma first_data_eq: "first_data m = m"
  by (simp add: first_data_def)

lemma sph_hash_calls:
  "calls (sph_hash P p data k fr) = calls fr @ [(p, data, snd (sph_run (P p) (ctx fr p) data))]"
  by (simp add: sph_hash_def sph_run_def Let_def)

lemma sph_hash_hash:
  "hash (sph_hash P p data k fr)
   = (hash fr)[k := write_at (hash fr ! k) 0 (snd (sph_run (P p) (ctx fr p) data))]"
  by (simp add: sph_hash_def sph_run_def Let_def)

lemma haval_hash_calls:
  "calls (haval_hash data k fr)
   = calls fr @ [(Haval256_5, data, snd (sph_run haval256_5_prim (ctx_haval fr) data))]"
  by (simp add: haval_hash_def sph_run_def haval256_5_prim_def Let_def)

lemma haval_hash_hash:
  "hash (haval_hash data k fr)
   = (hash fr)[k := write_at (hash fr ! k) 0 (snd (sph_run haval256_5_prim (ctx_haval fr) data))]"
  by (simp add: haval_hash_def sph_run_def haval256_5_prim_def Let_def)

lemma chain_step_calls:
  "calls (chain_step P m (k, p) fr)
   = calls fr @ [(p, step_data m k fr, step_digest P p fr (step_data m k fr))]"
  by (simp add: chain_step_def Let_def step_data_def step_digest_def sph_hash_calls haval_hash_calls)

lemma chain_step_hash:
  "hash (chain_step P m (k, p) fr)
   = (hash fr)[k := write_at (hash fr ! k) 0 (step_digest P p fr (step_data m k fr))]"
  by (simp add: chain_step_def Let_def step_data_def step_digest_def sph_hash_hash haval_hash_hash)

lemma computeChain_snoc:
  "computeChain P m k (ps @ [p]) fr = chain_step P m (k + length ps, p) (computeChain P m k ps fr)"
  by (induction ps arbitrary: k fr) simp_all

section \<open>\<open>Hash9\<close> is the chain of the specification\<close>

lemma chain_step_first: "p \<noteq> Haval256_5 \<Longrightarrow> chain_step P m (0, p) = sph_first P p m 0"
  by (rule ext) (simp add: chain_step_def sph_first_def first_data_eq)

lemma chain_step_next:
  "p \<noteq> Haval256_5 \<Longrightarrow> chain_step P m (Suc k, p) = sph_next P p k (Suc k)"
  by (rule ext) (simp add: chain_step_def sph_next_def)

lemma chain_step_haval: "chain_step P m (Suc k, Haval256_5) = haval_next k (Suc k)"
  by (rule ext) (simp add: chain_step_def haval_next_def)

lemma Hash9_5_frame_chain:
  "Hash9_5_frame P u stk m = computeChain P m 0 steps_5 (enter u stk 5)"
  by (simp add: Hash9_5_frame_def Hash9_5_body_def run_seq_def steps_5_def
      chain_step_first chain_step_next eval_nat_numeral)

lemma Hash9_24_frame_chain:
  "Hash9_24_frame P u stk m = computeChain P m 0 steps_24 (enter u stk 24)"
  by (simp add: Hash9_24_frame_def Hash9_24_body_def run_seq_def steps_24_def
      chain_step_first chain_step_next chain_step_haval eval_nat_numeral)

section \<open>What the chain leaves in the buffers\<close>

lemma chain_inv_enter: "chain_inv (uint512 u) m N [] (enter u stk N)"
  by (simp add: chain_inv_def enter_def)

lemma chain_inv_step:
  assumes inv: "chain_inv B m N ps fr" and lt: "length ps < N"
  shows "chain_inv B m N (ps @ [p]) (chain_step P m (length ps, p) fr)"
proof -
  let ?n = "length ps"
  let ?data = "step_data m ?n fr"
  let ?d = "step_digest P p fr ?data"
  let ?fr = "chain_step P m (?n, p) fr"
  from inv have len: "length (hash fr) = N" and names: "map fst (calls fr) = ps"
    and rest: "\<And>i. ?n \<le> i \<Longrightarrow> i < N \<Longrightarrow> hash fr ! i = B"
    and wrote: "\<And>i. i < ?n \<Longrightarrow> hash fr ! i = write_at B 0 (snd (snd (calls fr ! i)))"
    and read: "\<And>i. i < ?n \<Longrightarrow>
        fst (snd (calls fr ! i)) = (if i = 0 then m else take 64 (hash fr ! (i - 1)))"
    by (simp_all add: chain_inv_def)
  from names have lc: "length (calls fr) = ?n" by (metis length_map)
  have c: "calls ?fr = calls fr @ [(p, ?data, ?d)]" by (rule chain_step_calls)
  have h: "hash ?fr = (hash fr)[?n := write_at (hash fr ! ?n) 0 ?d]" by (rule chain_step_hash)
  have hn: "hash fr ! ?n = B" using rest [of ?n] lt by simp
  have 1: "length (hash ?fr) = N" by (simp add: h len)
  have 2: "map fst (calls ?fr) = ps @ [p]" by (simp add: c names)
  have 3: "hash ?fr ! i = B" if "length (ps @ [p]) \<le> i" "i < N" for i
    using that rest [of i] by (simp add: h)
  have 4: "hash ?fr ! i = write_at B 0 (snd (snd (calls ?fr ! i)))" if "i < length (ps @ [p])" for i
  proof (cases "i = ?n")
    case True
    then show ?thesis using lt by (simp add: h c len lc hn nth_append)
  next
    case False
    with that have "i < ?n" by simp
    then show ?thesis using wrote [of i] by (simp add: h c lc nth_append)
  qed
  have 5: "fst (snd (calls ?fr ! i)) = (if i = 0 then m else take 64 (hash ?fr ! (i - 1)))"
    if "i < length (ps @ [p])" for i
  proof (cases "i = ?n")
    case True
    show ?thesis
    proof (cases "?n = 0")
      case True
      with \<open>i = ?n\<close> lc show ?thesis by (simp add: chain_step_calls step_data_def)
    next
      case False
      then have "0 < ?n" by simp
      then have "?n - 1 \<noteq> ?n" by arith
      then have "hash ?fr ! (?n - 1) = hash fr ! (?n - 1)" by (simp add: h)
      with False \<open>i = ?n\<close> show ?thesis by (simp add: c lc step_data_def nth_append)
    qed
  next
    case False
    with that have "i < ?n" by simp
    then show ?thesis using read [of i] by (simp add: h c lc nth_append)
  qed
  have 0: "length (ps @ [p]) \<le> N" using lt by simp
  show ?thesis
    unfolding chain_inv_def using 0 1 2 3 4 5 by blast
qed

lemma chain_inv_computeChain:
  "length ps \<le> N \<Longrightarrow> chain_inv (uint512 u) m N ps (computeChain P m 0 ps (enter u stk N))"
proof (induction ps rule: rev_induct)
  case Nil
  show ?case by (simp add: chain_inv_enter)
next
  case (snoc p ps)
  then have "chain_inv (uint512 u) m N ps (computeChain P m 0 ps (enter u stk N))"
    and "length ps < N" by simp_all
  then have "chain_inv (uint512 u) m N (ps @ [p])
      (chain_step P m (length ps, p) (computeChain P m 0 ps (enter u stk N)))"
    by (rule chain_inv_step)
  then show ?case by (simp add: computeChain_snoc)
qed

section \<open>The digest does not depend on what the contexts held\<close>

lemma haval_init_resets: "init_resets haval256_5_prim"
  unfolding init_resets_def sph_run_def haval256_5_prim_def
  by (simp add: sph_haval256_5_init_def sph_haval256_5_def sph_haval256_5_close_def
      haval_digest_same [OF haval_init_same])

lemma step_digest_same:
  assumes "init_resets (P p)"
  shows "step_digest P p fr data = step_digest P p fr' data"
  using assms haval_init_resets by (simp add: step_digest_def init_resets_def)

lemma chain_step_same_out:
  assumes "init_resets (P (snd kp))" and "same_out fr fr'"
  shows "same_out (chain_step P m kp fr) (chain_step P m kp fr')"
proof -
  obtain k p where kp: "kp = (k, p)" by (cases kp)
  from assms(2) have "step_data m k fr = step_data m k fr'"
    by (simp add: same_out_def step_data_def)
  moreover from assms(1) kp have "step_digest P p fr (step_data m k fr') = step_digest P p fr' (step_data m k fr')"
    by (simp add: step_digest_same)
  ultimately show ?thesis
    using assms(2) by (simp add: kp same_out_def chain_step_calls chain_step_hash)
qed

lemma computeChain_same_out:
  assumes "\<And>p. p \<in> set ps \<Longrightarrow> init_resets (P p)" and "same_out fr fr'"
  shows "same_out (computeChain P m k ps fr) (computeChain P m k ps fr')"
  using assms
proof (induction ps arbitrary: k fr fr')
  case Nil
  then show ?case by simp
next
  case (Cons p ps)
  have "same_out (chain_step P m (k, p) fr) (chain_step P m (k, p) fr')"
    using Cons.prems by (simp add: chain_step_same_out)
  then show ?case using Cons.IH Cons.prems(1) by simp
qed

lemma enter_same_out: "same_out (enter u stk n) (enter u stk' n)"
  by (simp add: same_out_def enter_def)

section \<open>Consequences for \<open>Hash9\<close>\<close>

lemma computeChain_calls_prefix:
  "\<exists>es. calls (computeChain P m k ps fr) = calls fr @ es"
proof (induction ps arbitrary: k fr)
  case Nil
  show ?case by simp
next
  case (Cons p ps)
  obtain es where
    "calls (computeChain P m (Suc k) ps (chain_step P m (k, p) fr))
     = calls (chain_step P m (k, p) fr) @ es"
    using Cons.IH by blast
  then show ?case by (simp add: chain_step_calls)
qed

lemma computeChain_first_call:
  "calls (computeChain P m 0 (p # ps) (enter u stk N)) ! 0
   = (p, m, step_digest P p (enter u stk N) m)"
proof -
  obtain es where
    "calls (computeChain P m (Suc 0) ps (chain_step P m (0, p) (enter u stk N)))
     = calls (chain_step P m (0, p) (enter u stk N)) @ es"
    using computeChain_calls_prefix by blast
  then show ?thesis by (simp add: chain_step_calls step_data_def enter_def)
qed

lemma chain_inv_names: "chain_inv B m N ps fr \<Longrightarrow> map fst (calls fr) = ps"
  by (simp add: chain_inv_def)

lemma chain_inv_buffer:
  "chain_inv B m N ps fr \<Longrightarrow> i < length ps \<Longrightarrow>
   hash fr ! i = write_at B 0 (snd (snd (calls fr ! i)))"
  by (simp add: chain_inv_def)

lemma chain_inv_input:
  "chain_inv B m N ps fr \<Longrightarrow> i < length ps \<Longrightarrow> 0 < i \<Longrightarrow>
   fst (snd (calls fr ! i)) = take 64 (hash fr ! (i - 1))"
  by (simp add: chain_inv_def)

lemma chain_inputs:
  assumes inv: "chain_inv B m N ps fr" and ne: "ps \<noteq> []"
  shows "map (\<lambda>c. fst (snd c)) (calls fr) = m # map (take 64) (take (length ps - 1) (hash fr))"
proof (rule nth_equalityI)
  from inv have names: "map fst (calls fr) = ps" and len: "length (hash fr) = N"
    and le: "length ps \<le> N"
    and read: "\<And>i. i < length ps \<Longrightarrow>
        fst (snd (calls fr ! i)) = (if i = 0 then m else take 64 (hash fr ! (i - 1)))"
    by (simp_all add: chain_inv_def)
  from names have lc: "length (calls fr) = length ps" by (metis length_map)
  from ne have pos: "0 < length ps" by simp
  show "length (map (\<lambda>c. fst (snd c)) (calls fr))
      = length (m # map (take 64) (take (length ps - 1) (hash fr)))"
    using pos le by (simp add: lc len)
  fix i
  assume "i < length (map (\<lambda>c. fst (snd c)) (calls fr))"
  then have i: "i < length ps" by (simp add: lc)
  show "map (\<lambda>c. fst (snd c)) (calls fr) ! i
      = (m # map (take 64) (take (length ps - 1) (hash fr))) ! i"
  proof (cases i)
    case 0
    with i read [of 0] show ?thesis by (simp add: lc)
  next
    case (Suc j)
    with i le have "j < length ps - 1" and "j < N" by simp_all
    with Suc i read [of i] show ?thesis by (simp add: lc len)
  qed
qed

lemma Hash9_step_len5: "length steps_5 = 5"
  by (simp add: steps_5_def)

lemma Hash9_step_len24: "length steps_24 = 24"
  by (simp add: steps_24_def)

lemma Hash9_5_inv:
  "chain_inv (uint512 u) m 5 steps_5 (Hash9_5_frame P u stk m)"
  using chain_inv_computeChain [of steps_5 5 u m P stk]
  by (simp add: Hash9_5_frame_chain Hash9_step_len5)

lemma Hash9_24_inv:
  "chain_inv (uint512 u) m 24 steps_24 (Hash9_24_frame P u stk m)"
  using chain_inv_computeChain [of steps_24 24 u m P stk]
  by (simp add: Hash9_24_frame_chain Hash9_step_len24)

lemma Hash9_5_chain: "Hash9_5 P u stk g m = (computeChainHash P u stk steps_5 m, g)"
  by (simp add: Hash9_5_def computeChainHash_def trim256_def Hash9_5_frame_chain Hash9_step_len5)

lemma Hash9_24_chain: "Hash9_24 P u stk g m = (computeChainHash P u stk steps_24 m, g)"
  by (simp add: Hash9_24_def computeChainHash_def trim256_def Hash9_24_frame_chain Hash9_step_len24)

lemma Hash9_chain_calls:
  "Hash9_5 P u stk g m = (computeChainHash P u stk steps_5 m, g)
   \<and> map fst (calls (Hash9_5_frame P u stk m))
       = [Panama, Whirlpool, Keccak512, Panama, Cubehash512]
   \<and> map (\<lambda>c. fst (snd c)) (calls (Hash9_5_frame P u stk m))
       = m # map (take 64) (take 4 (hash (Hash9_5_frame P u stk m)))
   \<and> length steps_5 = 5 \<and> card (set steps_5) = 4
   \<and> Hash9_24 P u stk g m = (computeChainHash P u stk steps_24 m, g)
   \<and> map fst (calls (Hash9_24_frame P u stk m))
       = [Whirlpool1, Bmw512, Groestl512, Echo512, Hamsi512, Fugue512, Shabal512, Jh512,
          Keccak512, Skein512, Luffa512, Tiger, Cubehash512, Panama, Sha512, Shavite512,
          Simd512, Blake512, Ripemd160, Haval256_5, Cubehash384, Whirlpool1, Tiger2,
          Whirlpool]
   \<and> map (\<lambda>c. fst (snd c)) (calls (Hash9_24_frame P u stk m))
       = m # map (take 64) (take 23 (hash (Hash9_24_frame P u stk m)))
   \<and> length steps_24 = 24
   \<and> steps_24 ! 0 = Whirlpool1 \<and> steps_24 ! 1 = Bmw512
   \<and> steps_24 ! 21 = Whirlpool1 \<and> steps_24 ! 22 = Tiger2"
proof (intro conjI)
  have i5: "chain_inv (uint512 u) m 5 steps_5 (Hash9_5_frame P u stk m)"
    by (rule Hash9_5_inv)
  have i24: "chain_inv (uint512 u) m 24 steps_24 (Hash9_24_frame P u stk m)"
    by (rule Hash9_24_inv)
  have ne5: "steps_5 \<noteq> []" by (simp add: steps_5_def)
  have ne24: "steps_24 \<noteq> []" by (simp add: steps_24_def)
  show "Hash9_5 P u stk g m = (computeChainHash P u stk steps_5 m, g)"
    by (rule Hash9_5_chain)
  show "map fst (calls (Hash9_5_frame P u stk m)) = [Panama, Whirlpool, Keccak512, Panama, Cubehash512]"
    using chain_inv_names [OF i5] by (simp add: steps_5_def)
  show "map (\<lambda>c. fst (snd c)) (calls (Hash9_5_frame P u stk m))
      = m # map (take 64) (take 4 (hash (Hash9_5_frame P u stk m)))"
    using chain_inputs [OF i5 ne5] by (simp add: Hash9_step_len5)
  show "length steps_5 = 5" by (simp add: steps_5_def)
  have "card (set steps_5) = length (remdups steps_5)" by (rule List.card_set)
  then show "card (set steps_5) = 4" by (simp add: steps_5_def)
  show "Hash9_24 P u stk g m = (computeChainHash P u stk steps_24 m, g)"
    by (rule Hash9_24_chain)
  show "map fst (calls (Hash9_24_frame P u stk m))
      = [Whirlpool1, Bmw512, Groestl512, Echo512, Hamsi512, Fugue512, Shabal512, Jh512,
         Keccak512, Skein512, Luffa512, Tiger, Cubehash512, Panama, Sha512, Shavite512,
         Simd512, Blake512, Ripemd160, Haval256_5, Cubehash384, Whirlpool1, Tiger2,
         Whirlpool]"
    using chain_inv_names [OF i24] by (simp add: steps_24_def)
  show "map (\<lambda>c. fst (snd c)) (calls (Hash9_24_frame P u stk m))
      = m # map (take 64) (take 23 (hash (Hash9_24_frame P u stk m)))"
    using chain_inputs [OF i24 ne24] by (simp add: Hash9_step_len24)
  show "length steps_24 = 24" by (simp add: steps_24_def)
  show "steps_24 ! 0 = Whirlpool1" by (simp add: steps_24_def)
  show "steps_24 ! 1 = Bmw512" by (simp add: steps_24_def)
  show "steps_24 ! 21 = Whirlpool1" by (simp add: steps_24_def)
  show "steps_24 ! 22 = Tiger2" by (simp add: steps_24_def)
qed

section \<open>Each buffer holds the digest of a run of its primitive\<close>

lemma chain_step_ctx:
  "ctx (chain_step P m (k, p) fr) q
   = (if p \<noteq> Haval256_5 \<and> q = p
      then fst (sph_close (P p) (sph_update (P p) (sph_init (P p) (ctx fr p)) (step_data m k fr)))
      else ctx fr q)"
  by (simp add: chain_step_def Let_def sph_hash_def haval_hash_def step_data_def)

lemma chain_step_ctx_haval:
  "ctx_haval (chain_step P m (k, p) fr)
   = (if p = Haval256_5
      then fst (sph_haval256_5_close (sph_haval256_5 (sph_haval256_5_init (ctx_haval fr))
             (step_data m k fr)))
      else ctx_haval fr)"
  by (simp add: chain_step_def Let_def sph_hash_def haval_hash_def step_data_def)

lemma computeChain_append:
  "computeChain P m k (ps @ qs) fr
   = computeChain P m (k + length ps) qs (computeChain P m k ps fr)"
  by (induction ps arbitrary: k fr) simp_all

lemma computeChain_calls_length:
  "length (calls (computeChain P m k ps fr)) = length (calls fr) + length ps"
  by (induction ps arbitrary: k fr) (simp_all add: chain_step_calls)

lemma computeChain_call_at:
  assumes i: "i < length ps" and empty: "calls fr0 = []"
  shows "calls (computeChain P m 0 ps fr0) ! i
         = (ps ! i, step_data m i (computeChain P m 0 (take i ps) fr0),
            step_digest P (ps ! i) (computeChain P m 0 (take i ps) fr0)
              (step_data m i (computeChain P m 0 (take i ps) fr0)))"
proof -
  let ?fri = "computeChain P m 0 (take i ps) fr0"
  let ?next = "chain_step P m (i, ps ! i) ?fri"
  have split: "ps = take i ps @ ps ! i # drop (Suc i) ps"
    using i by (rule id_take_nth_drop)
  have li: "length (take i ps) = i" using i by simp
  have "computeChain P m 0 (take i ps @ ps ! i # drop (Suc i) ps) fr0
      = computeChain P m (0 + length (take i ps)) (ps ! i # drop (Suc i) ps) ?fri"
    by (rule computeChain_append)
  then have whole: "computeChain P m 0 ps fr0 = computeChain P m (Suc i) (drop (Suc i) ps) ?next"
    using split li by simp
  obtain es where "calls (computeChain P m (Suc i) (drop (Suc i) ps) ?next) = calls ?next @ es"
    using computeChain_calls_prefix by blast
  then have c: "calls (computeChain P m 0 ps fr0) = calls ?next @ es"
    by (simp only: whole)
  have len: "length (calls ?fri) = i"
    using computeChain_calls_length [of P m 0 "take i ps" fr0] li empty by simp
  have "calls ?next
      = calls ?fri @ [(ps ! i, step_data m i ?fri, step_digest P (ps ! i) ?fri (step_data m i ?fri))]"
    by (rule chain_step_calls)
  with c len show ?thesis by (simp add: nth_append)
qed

lemma chain_buffer_run:
  assumes i: "i < length ps" and le: "length ps \<le> N"
  shows "hash (computeChain P m 0 ps (enter u stk N)) ! i
         = write_at (uint512 u) 0
             (step_digest P (ps ! i) (computeChain P m 0 (take i ps) (enter u stk N))
                (if i = 0 then m
                 else take 64 (hash (computeChain P m 0 ps (enter u stk N)) ! (i - 1))))"
proof -
  let ?F = "computeChain P m 0 ps (enter u stk N)"
  let ?fri = "computeChain P m 0 (take i ps) (enter u stk N)"
  have inv: "chain_inv (uint512 u) m N ps ?F"
    using le by (rule chain_inv_computeChain)
  have call: "calls ?F ! i
      = (ps ! i, step_data m i ?fri, step_digest P (ps ! i) ?fri (step_data m i ?fri))"
    using i by (rule computeChain_call_at) (simp add: enter_def)
  from inv i have "fst (snd (calls ?F ! i)) = (if i = 0 then m else take 64 (hash ?F ! (i - 1)))"
    by (simp add: chain_inv_def)
  with call have data: "step_data m i ?fri = (if i = 0 then m else take 64 (hash ?F ! (i - 1)))"
    by simp
  from inv i have "hash ?F ! i = write_at (uint512 u) 0 (snd (snd (calls ?F ! i)))"
    by (rule chain_inv_buffer)
  with call have "hash ?F ! i
      = write_at (uint512 u) 0 (step_digest P (ps ! i) ?fri (step_data m i ?fri))"
    by simp
  then show ?thesis by (simp only: data)
qed

lemma Hash9_5_buffer_run:
  "i < 5 \<Longrightarrow>
   hash (Hash9_5_frame P u stk m) ! i
   = write_at (uint512 u) 0
       (step_digest P (steps_5 ! i) (computeChain P m 0 (take i steps_5) (enter u stk 5))
          (if i = 0 then m else take 64 (hash (Hash9_5_frame P u stk m) ! (i - 1))))"
  unfolding Hash9_5_frame_chain
  by (rule chain_buffer_run) (simp_all add: Hash9_step_len5)

lemma Hash9_24_buffer_run:
  "i < 24 \<Longrightarrow>
   hash (Hash9_24_frame P u stk m) ! i
   = write_at (uint512 u) 0
       (step_digest P (steps_24 ! i) (computeChain P m 0 (take i steps_24) (enter u stk 24))
          (if i = 0 then m else take 64 (hash (Hash9_24_frame P u stk m) ! (i - 1))))"
  unfolding Hash9_24_frame_chain
  by (rule chain_buffer_run) (simp_all add: Hash9_step_len24)

lemma Hash9_5_buffers:
  "hash (Hash9_5_frame P u stk m) ! 0
       = write_at (uint512 u) 0
          (snd (sph_run (P Panama) (stack_ctx stk Panama)
            m))
   \<and> hash (Hash9_5_frame P u stk m) ! 1
       = write_at (uint512 u) 0
          (snd (sph_run (P Whirlpool) (stack_ctx stk Whirlpool)
            (take 64 (hash (Hash9_5_frame P u stk m) ! 0))))
   \<and> hash (Hash9_5_frame P u stk m) ! 2
       = write_at (uint512 u) 0
          (snd (sph_run (P Keccak512) (stack_ctx stk Keccak512)
            (take 64 (hash (Hash9_5_frame P u stk m) ! 1))))
   \<and> hash (Hash9_5_frame P u stk m) ! 3
       = write_at (uint512 u) 0
          (snd (sph_run (P Panama) (fst (sph_run (P Panama) (stack_ctx stk Panama) m))
            (take 64 (hash (Hash9_5_frame P u stk m) ! 2))))
   \<and> hash (Hash9_5_frame P u stk m) ! 4
       = write_at (uint512 u) 0
          (snd (sph_run (P Cubehash512) (stack_ctx stk Cubehash512)
            (take 64 (hash (Hash9_5_frame P u stk m) ! 3))))"
proof (intro conjI)
  show "hash (Hash9_5_frame P u stk m) ! 0
           = write_at (uint512 u) 0
              (snd (sph_run (P Panama) (stack_ctx stk Panama)
                m))"
    using Hash9_5_buffer_run [of 0 P u stk m]
    by (simp add: steps_5_def step_digest_def step_data_def chain_step_ctx chain_step_ctx_haval
        enter_def sph_run_def haval256_5_prim_def)
  show "hash (Hash9_5_frame P u stk m) ! 1
           = write_at (uint512 u) 0
              (snd (sph_run (P Whirlpool) (stack_ctx stk Whirlpool)
                (take 64 (hash (Hash9_5_frame P u stk m) ! 0))))"
    using Hash9_5_buffer_run [of 1 P u stk m]
    by (simp add: steps_5_def step_digest_def step_data_def chain_step_ctx chain_step_ctx_haval
        enter_def sph_run_def haval256_5_prim_def)
  show "hash (Hash9_5_frame P u stk m) ! 2
           = write_at (uint512 u) 0
              (snd (sph_run (P Keccak512) (stack_ctx stk Keccak512)
                (take 64 (hash (Hash9_5_frame P u stk m) ! 1))))"
    using Hash9_5_buffer_run [of 2 P u stk m]
    by (simp add: steps_5_def step_digest_def step_data_def chain_step_ctx chain_step_ctx_haval
        enter_def sph_run_def haval256_5_prim_def)
  show "hash (Hash9_5_frame P u stk m) ! 3
           = write_at (uint512 u) 0
              (snd (sph_run (P Panama) (fst (sph_run (P Panama) (stack_ctx stk Panama) m))
                (take 64 (hash (Hash9_5_frame P u stk m) ! 2))))"
    using Hash9_5_buffer_run [of 3 P u stk m]
    by (simp add: steps_5_def step_digest_def step_data_def chain_step_ctx chain_step_ctx_haval
        enter_def sph_run_def haval256_5_prim_def)
  show "hash (Hash9_5_frame P u stk m) ! 4
           = write_at (uint512 u) 0
              (snd (sph_run (P Cubehash512) (stack_ctx stk Cubehash512)
                (take 64 (hash (Hash9_5_frame P u stk m) ! 3))))"
    using Hash9_5_buffer_run [of 4 P u stk m]
    by (simp add: steps_5_def step_digest_def step_data_def chain_step_ctx chain_step_ctx_haval
        enter_def sph_run_def haval256_5_prim_def)
qed

lemma Hash9_24_buffers:
  "hash (Hash9_24_frame P u stk m) ! 0
       = write_at (uint512 u) 0
          (snd (sph_run (P Whirlpool1) (stack_ctx stk Whirlpool1)
            m))
   \<and> hash (Hash9_24_frame P u stk m) ! 1
       = write_at (uint512 u) 0
          (snd (sph_run (P Bmw512) (stack_ctx stk Bmw512)
            (take 64 (hash (Hash9_24_frame P u stk m) ! 0))))
   \<and> hash (Hash9_24_frame P u stk m) ! 2
       = write_at (uint512 u) 0
          (snd (sph_run (P Groestl512) (stack_ctx stk Groestl512)
            (take 64 (hash (Hash9_24_frame P u stk m) ! 1))))
   \<and> hash (Hash9_24_frame P u stk m) ! 3
       = write_at (uint512 u) 0
          (snd (sph_run (P Echo512) (stack_ctx stk Echo512)
            (take 64 (hash (Hash9_24_frame P u stk m) ! 2))))
   \<and> hash (Hash9_24_frame P u stk m) ! 4
       = write_at (uint512 u) 0
          (snd (sph_run (P Hamsi512) (stack_ctx stk Hamsi512)
            (take 64 (hash (Hash9_24_frame P u stk m) ! 3))))
   \<and> hash (Hash9_24_frame P u stk m) ! 5
       = write_at (uint512 u) 0
          (snd (sph_run (P Fugue512) (stack_ctx stk Fugue512)
            (take 64 (hash (Hash9_24_frame P u stk m) ! 4))))
   \<and> hash (Hash9_24_frame P u stk m) ! 6
       = write_at (uint512 u) 0
          (snd (sph_run (P Shabal512) (stack_ctx stk Shabal512)
            (take 64 (hash (Hash9_24_frame P u stk m) ! 5))))
   \<and> hash (Hash9_24_frame P u stk m) ! 7
       = write_at (uint512 u) 0
          (snd (sph_run (P Jh512) (stack_ctx stk Jh512)
            (take 64 (hash (Hash9_24_frame P u stk m) ! 6))))
   \<and> hash (Hash9_24_frame P u stk m) ! 8
       = write_at (uint512 u) 0
          (snd (sph_run (P Keccak512) (stack_ctx stk Keccak512)
            (take 64 (hash (Hash9_24_frame P u stk m) ! 7))))
   \<and> hash (Hash9_24_frame P u stk m) ! 9
       = write_at (uint512 u) 0
          (snd (sph_run (P Skein512) (stack_ctx stk Skein512)
            (take 64 (hash (Hash9_24_frame P u stk m) ! 8))))
   \<and> hash (Hash9_24_frame P u stk m) ! 10
       = write_at (uint512 u) 0
          (snd (sph_run (P Luffa512) (stack_ctx stk Luffa512)
            (take 64 (hash (Hash9_24_frame P u stk m) ! 9))))
   \<and> hash (Hash9_24_frame P u stk m) ! 11
       = write_at (uint512 u) 0
          (snd (sph_run (P Tiger) (stack_ctx stk Tiger)
            (take 64 (hash (Hash9_24_frame P u stk m) ! 10))))
   \<and> hash (Hash9_24_frame P u stk m) ! 12
       = write_at (uint512 u) 0
          (snd (sph_run (P Cubehash512) (stack_ctx stk Cubehash512)
            (take 64 (hash (Hash9_24_frame P u stk m) ! 11))))
   \<and> hash (Hash9_24_frame P u stk m) ! 13
       = write_at (uint512 u) 0
          (snd (sph_run (P Panama) (stack_ctx stk Panama)
            (take 64 (hash (Hash9_24_frame P u stk m) ! 12))))
   \<and> hash (Hash9_24_frame P u stk m) ! 14
       = write_at (uint512 u) 0
          (snd (sph_run (P Sha512) (stack_ctx stk Sha512)
            (take 64 (hash (Hash9_24_frame P u stk m) ! 13))))
   \<and> hash (Hash9_24_frame P u stk m) ! 15
       = write_at (uint512 u) 0
          (snd (sph_run (P Shavite512) (stack_ctx stk Shavite512)
            (take 64 (hash (Hash9_24_frame P u stk m) ! 14))))
   \<and> hash (Hash9_24_frame P u stk m) ! 16
       = write_at (uint512 u) 0
          (snd (sph_run (P Simd512) (stack_ctx stk Simd512)
            (take 64 (hash (Hash9_24_frame P u stk m) ! 15))))
   \<and> hash (Hash9_24_frame P u stk m) ! 17
       = write_at (uint512 u) 0
          (snd (sph_run (P Blake512) (stack_ctx stk Blake512)
            (take 64 (hash (Hash9_24_frame P u stk m) ! 16))))
   \<and> hash (Hash9_24_frame P u stk m) ! 18
       = write_at (uint512 u) 0
          (snd (sph_run (P Ripemd160) (stack_ctx stk Ripemd160)
            (take 64 (hash (Hash9_24_frame P u stk m) ! 17))))
   \<and> hash (Hash9_24_frame P u stk m) ! 19
       = write_at (uint512 u) 0
          (snd (sph_haval256_5_close (sph_haval256_5 (sph_haval256_5_init (stack_haval stk))
            (take 64 (hash (Hash9_24_frame P u stk m) ! 18)))))
   \<and> hash (Hash9_24_frame P u stk m) ! 20
       = write_at (uint512 u) 0
          (snd (sph_run (P Cubehash384) (stack_ctx stk Cubehash384)
            (take 64 (hash (Hash9_24_frame P u stk m) ! 19))))
   \<and> hash (Hash9_24_frame P u stk m) ! 21
       = write_at (uint512 u) 0
          (snd (sph_run (P Whirlpool1) (fst (sph_run (P Whirlpool1) (stack_ctx stk Whirlpool1) m))
            (take 64 (hash (Hash9_24_frame P u stk m) ! 20))))
   \<and> hash (Hash9_24_frame P u stk m) ! 22
       = write_at (uint512 u) 0
          (snd (sph_run (P Tiger2) (stack_ctx stk Tiger2)
            (take 64 (hash (Hash9_24_frame P u stk m) ! 21))))
   \<and> hash (Hash9_24_frame P u stk m) ! 23
       = write_at (uint512 u) 0
          (snd (sph_run (P Whirlpool) (stack_ctx stk Whirlpool)
            (take 64 (hash (Hash9_24_frame P u stk m) ! 22))))"
proof (intro conjI)
  show "hash (Hash9_24_frame P u stk m) ! 0
           = write_at (uint512 u) 0
              (snd (sph_run (P Whirlpool1) (stack_ctx stk Whirlpool1)
                m))"
    using Hash9_24_buffer_run [of 0 P u stk m]
    by (simp add: steps_24_def step_digest_def step_data_def chain_step_ctx chain_step_ctx_haval
        enter_def sph_run_def haval256_5_prim_def)
  show "hash (Hash9_24_frame P u stk m) ! 1
           = write_at (uint512 u) 0
              (snd (sph_run (P Bmw512) (stack_ctx stk Bmw512)
                (take 64 (hash (Hash9_24_frame P u stk m) ! 0))))"
    using Hash9_24_buffer_run [of 1 P u stk m]
    by (simp add: steps_24_def step_digest_def step_data_def chain_step_ctx chain_step_ctx_haval
        enter_def sph_run_def haval256_5_prim_def)
  show "hash (Hash9_24_frame P u stk m) ! 2
           = write_at (uint512 u) 0
              (snd (sph_run (P Groestl512) (stack_ctx stk Groestl512)
                (take 64 (hash (Hash9_24_frame P u stk m) ! 1))))"
    using Hash9_24_buffer_run [of 2 P u stk m]
    by (simp add: steps_24_def step_digest_def step_data_def chain_step_ctx chain_step_ctx_haval
        enter_def sph_run_def haval256_5_prim_def)
  show "hash (Hash9_24_frame P u stk m) ! 3
           = write_at (uint512 u) 0
              (snd (sph_run (P Echo512) (stack_ctx stk Echo512)
                (take 64 (hash (Hash9_24_frame P u stk m) ! 2))))"
    using Hash9_24_buffer_run [of 3 P u stk m]
    by (simp add: steps_24_def step_digest_def step_data_def chain_step_ctx chain_step_ctx_haval
        enter_def sph_run_def haval256_5_prim_def)
  show "hash (Hash9_24_frame P u stk m) ! 4
           = write_at (uint512 u) 0
              (snd (sph_run (P Hamsi512) (stack_ctx stk Hamsi512)
                (take 64 (hash (Hash9_24_frame P u stk m) ! 3))))"
    using Hash9_24_buffer_run [of 4 P u stk m]
    by (simp add: steps_24_def step_digest_def step_data_def chain_step_ctx chain_step_ctx_haval
        enter_def sph_run_def haval256_5_prim_def)
  show "hash (Hash9_24_frame P u stk m) ! 5
           = write_at (uint512 u) 0
              (snd (sph_run (P Fugue512) (stack_ctx stk Fugue512)
                (take 64 (hash (Hash9_24_frame P u stk m) ! 4))))"
    using Hash9_24_buffer_run [of 5 P u stk m]
    by (simp add: steps_24_def step_digest_def step_data_def chain_step_ctx chain_step_ctx_haval
        enter_def sph_run_def haval256_5_prim_def)
  show "hash (Hash9_24_frame P u stk m) ! 6
           = write_at (uint512 u) 0
              (snd (sph_run (P Shabal512) (stack_ctx stk Shabal512)
                (take 64 (hash (Hash9_24_frame P u stk m) ! 5))))"
    using Hash9_24_buffer_run [of 6 P u stk m]
    by (simp add: steps_24_def step_digest_def step_data_def chain_step_ctx chain_step_ctx_haval
        enter_def sph_run_def haval256_5_prim_def)
  show "hash (Hash9_24_frame P u stk m) ! 7
           = write_at (uint512 u) 0
              (snd (sph_run (P Jh512) (stack_ctx stk Jh512)
                (take 64 (hash (Hash9_24_frame P u stk m) ! 6))))"
    using Hash9_24_buffer_run [of 7 P u stk m]
    by (simp add: steps_24_def step_digest_def step_data_def chain_step_ctx chain_step_ctx_haval
        enter_def sph_run_def haval256_5_prim_def)
  show "hash (Hash9_24_frame P u stk m) ! 8
           = write_at (uint512 u) 0
              (snd (sph_run (P Keccak512) (stack_ctx stk Keccak512)
                (take 64 (hash (Hash9_24_frame P u stk m) ! 7))))"
    using Hash9_24_buffer_run [of 8 P u stk m]
    by (simp add: steps_24_def step_digest_def step_data_def chain_step_ctx chain_step_ctx_haval
        enter_def sph_run_def haval256_5_prim_def)
  show "hash (Hash9_24_frame P u stk m) ! 9
           = write_at (uint512 u) 0
              (snd (sph_run (P Skein512) (stack_ctx stk Skein512)
                (take 64 (hash (Hash9_24_frame P u stk m) ! 8))))"
    using Hash9_24_buffer_run [of 9 P u stk m]
    by (simp add: steps_24_def step_digest_def step_data_def chain_step_ctx chain_step_ctx_haval
        enter_def sph_run_def haval256_5_prim_def)
  show "hash (Hash9_24_frame P u stk m) ! 10
           = write_at (uint512 u) 0
              (snd (sph_run (P Luffa512) (stack_ctx stk Luffa512)
                (take 64 (hash (Hash9_24_frame P u stk m) ! 9))))"
    using Hash9_24_buffer_run [of 10 P u stk m]
    by (simp add: steps_24_def step_digest_def step_data_def chain_step_ctx chain_step_ctx_haval
        enter_def sph_run_def haval256_5_prim_def)
  show "hash (Hash9_24_frame P u stk m) ! 11
           = write_at (uint512 u) 0
              (snd (sph_run (P Tiger) (stack_ctx stk Tiger)
                (take 64 (hash (Hash9_24_frame P u stk m) ! 10))))"
    using Hash9_24_buffer_run [of 11 P u stk m]
    by (simp add: steps_24_def step_digest_def step_data_def chain_step_ctx chain_step_ctx_haval
        enter_def sph_run_def haval256_5_prim_def)
  show "hash (Hash9_24_frame P u stk m) ! 12
           = write_at (uint512 u) 0
              (snd (sph_run (P Cubehash512) (stack_ctx stk Cubehash512)
                (take 64 (hash (Hash9_24_frame P u stk m) ! 11))))"
    using Hash9_24_buffer_run [of 12 P u stk m]
    by (simp add: steps_24_def step_digest_def step_data_def chain_step_ctx chain_step_ctx_haval
        enter_def sph_run_def haval256_5_prim_def)
  show "hash (Hash9_24_frame P u stk m) ! 13
           = write_at (uint512 u) 0
              (snd (sph_run (P Panama) (stack_ctx stk Panama)
                (take 64 (hash (Hash9_24_frame P u stk m) ! 12))))"
    using Hash9_24_buffer_run [of 13 P u stk m]
    by (simp add: steps_24_def step_digest_def step_data_def chain_step_ctx chain_step_ctx_haval
        enter_def sph_run_def haval256_5_prim_def)
  show "hash (Hash9_24_frame P u stk m) ! 14
           = write_at (uint512 u) 0
              (snd (sph_run (P Sha512) (stack_ctx stk Sha512)
                (take 64 (hash (Hash9_24_frame P u stk m) ! 13))))"
    using Hash9_24_buffer_run [of 14 P u stk m]
    by (simp add: steps_24_def step_digest_def step_data_def chain_step_ctx chain_step_ctx_haval
        enter_def sph_run_def haval256_5_prim_def)
  show "hash (Hash9_24_frame P u stk m) ! 15
           = write_at (uint512 u) 0
              (snd (sph_run (P Shavite512) (stack_ctx stk Shavite512)
                (take 64 (hash (Hash9_24_frame P u stk m) ! 14))))"
    using Hash9_24_buffer_run [of 15 P u stk m]
    by (simp add: steps_24_def step_digest_def step_data_def chain_step_ctx chain_step_ctx_haval
        enter_def sph_run_def haval256_5_prim_def)
  show "hash (Hash9_24_frame P u stk m) ! 16
           = write_at (uint512 u) 0
              (snd (sph_run (P Simd512) (stack_ctx stk Simd512)
                (take 64 (hash (Hash9_24_frame P u stk m) ! 15))))"
    using Hash9_24_buffer_run [of 16 P u stk m]
    by (simp add: steps_24_def step_digest_def step_data_def chain_step_ctx chain_step_ctx_haval
        enter_def sph_run_def haval256_5_prim_def)
  show "hash (Hash9_24_frame P u stk m) ! 17
           = write_at (uint512 u) 0
              (snd (sph_run (P Blake512) (stack_ctx stk Blake512)
                (take 64 (hash (Hash9_24_frame P u stk m) ! 16))))"
    using Hash9_24_buffer_run [of 17 P u stk m]
    by (simp add: steps_24_def step_digest_def step_data_def chain_step_ctx chain_step_ctx_haval
        enter_def sph_run_def haval256_5_prim_def)
  show "hash (Hash9_24_frame P u stk m) ! 18
           = write_at (uint512 u) 0
              (snd (sph_run (P Ripemd160) (stack_ctx stk Ripemd160)
                (take 64 (hash (Hash9_24_frame P u stk m) ! 17))))"
    using Hash9_24_buffer_run [of 18 P u stk m]
    by (simp add: steps_24_def step_digest_def step_data_def chain_step_ctx chain_step_ctx_haval
        enter_def sph_run_def haval256_5_prim_def)
  show "hash (Hash9_24_frame P u stk m) ! 19
           = write_at (uint512 u) 0
              (snd (sph_haval256_5_close (sph_haval256_5 (sph_haval256_5_init (stack_haval stk))
                (take 64 (hash (Hash9_24_frame P u stk m) ! 18)))))"
    using Hash9_24_buffer_run [of 19 P u stk m]
    by (simp add: steps_24_def step_digest_def step_data_def chain_step_ctx chain_step_ctx_haval
        enter_def sph_run_def haval256_5_prim_def)
  show "hash (Hash9_24_frame P u stk m) ! 20
           = write_at (uint512 u) 0
              (snd (sph_run (P Cubehash384) (stack_ctx stk Cubehash384)
                (take 64 (hash (Hash9_24_frame P u stk m) ! 19))))"
    using Hash9_24_buffer_run [of 20 P u stk m]
    by (simp add: steps_24_def step_digest_def step_data_def chain_step_ctx chain_step_ctx_haval
        enter_def sph_run_def haval256_5_prim_def)
  show "hash (Hash9_24_frame P u stk m) ! 21
           = write_at (uint512 u) 0
              (snd (sph_run (P Whirlpool1) (fst (sph_run (P Whirlpool1) (stack_ctx stk Whirlpool1) m))
                (take 64 (hash (Hash9_24_frame P u stk m) ! 20))))"
    using Hash9_24_buffer_run [of 21 P u stk m]
    by (simp add: steps_24_def step_digest_def step_data_def chain_step_ctx chain_step_ctx_haval
        enter_def sph_run_def haval256_5_prim_def)
  show "hash (Hash9_24_frame P u stk m) ! 22
           = write_at (uint512 u) 0
              (snd (sph_run (P Tiger2) (stack_ctx stk Tiger2)
                (take 64 (hash (Hash9_24_frame P u stk m) ! 21))))"
    using Hash9_24_buffer_run [of 22 P u stk m]
    by (simp add: steps_24_def step_digest_def step_data_def chain_step_ctx chain_step_ctx_haval
        enter_def sph_run_def haval256_5_prim_def)
  show "hash (Hash9_24_frame P u stk m) ! 23
           = write_at (uint512 u) 0
              (snd (sph_run (P Whirlpool) (stack_ctx stk Whirlpool)
                (take 64 (hash (Hash9_24_frame P u stk m) ! 22))))"
    using Hash9_24_buffer_run [of 23 P u stk m]
    by (simp add: steps_24_def step_digest_def step_data_def chain_step_ctx chain_step_ctx_haval
        enter_def sph_run_def haval256_5_prim_def)
qed

text \<open>
  C2. The 5-step \<open>Hash9\<close> applies Panama, Whirlpool, Keccak-512, Panama, CubeHash-512 in
  this order (four distinct primitives): buffer \<open>k\<close> is the default-constructed \<open>uint512\<close>
  with, from offset 0, the digest that \<open>close\<close> returns after \<open>init\<close> and \<open>update\<close> of the
  primitive of step \<open>k\<close>, run on that primitive's context local and fed the message at
  the first step and 64 bytes of the buffer of the step before it at every later one. The
  second Panama run starts from the context the first one left. The 24-step \<open>Hash9\<close>
  applies the listed 24 primitives in the same way; Whirlpool-1 is step 1 and step 22
  (started from the context its first run left), followed by BMW-512 and by Tiger2, and
  step 20 is the run of \<open>sph_haval256_5_init\<close>, \<open>sph_haval256_5\<close>, \<open>sph_haval256_5_close\<close>.
  Both are the chain of the specification over their list, and the runs made are exactly
  the listed ones, in this order.
\<close>

theorem Hash9_step_sequence:
  "(Hash9_5 P u stk g m = (computeChainHash P u stk steps_5 m, g)
    \<and> map fst (calls (Hash9_5_frame P u stk m))
        = [Panama, Whirlpool, Keccak512, Panama, Cubehash512]
    \<and> map (\<lambda>c. fst (snd c)) (calls (Hash9_5_frame P u stk m))
        = m # map (take 64) (take 4 (hash (Hash9_5_frame P u stk m)))
    \<and> length steps_5 = 5 \<and> card (set steps_5) = 4
    \<and> Hash9_24 P u stk g m = (computeChainHash P u stk steps_24 m, g)
    \<and> map fst (calls (Hash9_24_frame P u stk m))
        = [Whirlpool1, Bmw512, Groestl512, Echo512, Hamsi512, Fugue512, Shabal512, Jh512,
           Keccak512, Skein512, Luffa512, Tiger, Cubehash512, Panama, Sha512, Shavite512,
           Simd512, Blake512, Ripemd160, Haval256_5, Cubehash384, Whirlpool1, Tiger2,
           Whirlpool]
    \<and> map (\<lambda>c. fst (snd c)) (calls (Hash9_24_frame P u stk m))
        = m # map (take 64) (take 23 (hash (Hash9_24_frame P u stk m)))
    \<and> length steps_24 = 24
    \<and> steps_24 ! 0 = Whirlpool1 \<and> steps_24 ! 1 = Bmw512
    \<and> steps_24 ! 21 = Whirlpool1 \<and> steps_24 ! 22 = Tiger2)
   \<and> (hash (Hash9_5_frame P u stk m) ! 0
         = write_at (uint512 u) 0
            (snd (sph_run (P Panama) (stack_ctx stk Panama)
              m))
    \<and> hash (Hash9_5_frame P u stk m) ! 1
         = write_at (uint512 u) 0
            (snd (sph_run (P Whirlpool) (stack_ctx stk Whirlpool)
              (take 64 (hash (Hash9_5_frame P u stk m) ! 0))))
    \<and> hash (Hash9_5_frame P u stk m) ! 2
         = write_at (uint512 u) 0
            (snd (sph_run (P Keccak512) (stack_ctx stk Keccak512)
              (take 64 (hash (Hash9_5_frame P u stk m) ! 1))))
    \<and> hash (Hash9_5_frame P u stk m) ! 3
         = write_at (uint512 u) 0
            (snd (sph_run (P Panama) (fst (sph_run (P Panama) (stack_ctx stk Panama) m))
              (take 64 (hash (Hash9_5_frame P u stk m) ! 2))))
    \<and> hash (Hash9_5_frame P u stk m) ! 4
         = write_at (uint512 u) 0
            (snd (sph_run (P Cubehash512) (stack_ctx stk Cubehash512)
              (take 64 (hash (Hash9_5_frame P u stk m) ! 3)))))
   \<and> (hash (Hash9_24_frame P u stk m) ! 0
         = write_at (uint512 u) 0
            (snd (sph_run (P Whirlpool1) (stack_ctx stk Whirlpool1)
              m))
    \<and> hash (Hash9_24_frame P u stk m) ! 1
         = write_at (uint512 u) 0
            (snd (sph_run (P Bmw512) (stack_ctx stk Bmw512)
              (take 64 (hash (Hash9_24_frame P u stk m) ! 0))))
    \<and> hash (Hash9_24_frame P u stk m) ! 2
         = write_at (uint512 u) 0
            (snd (sph_run (P Groestl512) (stack_ctx stk Groestl512)
              (take 64 (hash (Hash9_24_frame P u stk m) ! 1))))
    \<and> hash (Hash9_24_frame P u stk m) ! 3
         = write_at (uint512 u) 0
            (snd (sph_run (P Echo512) (stack_ctx stk Echo512)
              (take 64 (hash (Hash9_24_frame P u stk m) ! 2))))
    \<and> hash (Hash9_24_frame P u stk m) ! 4
         = write_at (uint512 u) 0
            (snd (sph_run (P Hamsi512) (stack_ctx stk Hamsi512)
              (take 64 (hash (Hash9_24_frame P u stk m) ! 3))))
    \<and> hash (Hash9_24_frame P u stk m) ! 5
         = write_at (uint512 u) 0
            (snd (sph_run (P Fugue512) (stack_ctx stk Fugue512)
              (take 64 (hash (Hash9_24_frame P u stk m) ! 4))))
    \<and> hash (Hash9_24_frame P u stk m) ! 6
         = write_at (uint512 u) 0
            (snd (sph_run (P Shabal512) (stack_ctx stk Shabal512)
              (take 64 (hash (Hash9_24_frame P u stk m) ! 5))))
    \<and> hash (Hash9_24_frame P u stk m) ! 7
         = write_at (uint512 u) 0
            (snd (sph_run (P Jh512) (stack_ctx stk Jh512)
              (take 64 (hash (Hash9_24_frame P u stk m) ! 6))))
    \<and> hash (Hash9_24_frame P u stk m) ! 8
         = write_at (uint512 u) 0
            (snd (sph_run (P Keccak512) (stack_ctx stk Keccak512)
              (take 64 (hash (Hash9_24_frame P u stk m) ! 7))))
    \<and> hash (Hash9_24_frame P u stk m) ! 9
         = write_at (uint512 u) 0
            (snd (sph_run (P Skein512) (stack_ctx stk Skein512)
              (take 64 (hash (Hash9_24_frame P u stk m) ! 8))))
    \<and> hash (Hash9_24_frame P u stk m) ! 10
         = write_at (uint512 u) 0
            (snd (sph_run (P Luffa512) (stack_ctx stk Luffa512)
              (take 64 (hash (Hash9_24_frame P u stk m) ! 9))))
    \<and> hash (Hash9_24_frame P u stk m) ! 11
         = write_at (uint512 u) 0
            (snd (sph_run (P Tiger) (stack_ctx stk Tiger)
              (take 64 (hash (Hash9_24_frame P u stk m) ! 10))))
    \<and> hash (Hash9_24_frame P u stk m) ! 12
         = write_at (uint512 u) 0
            (snd (sph_run (P Cubehash512) (stack_ctx stk Cubehash512)
              (take 64 (hash (Hash9_24_frame P u stk m) ! 11))))
    \<and> hash (Hash9_24_frame P u stk m) ! 13
         = write_at (uint512 u) 0
            (snd (sph_run (P Panama) (stack_ctx stk Panama)
              (take 64 (hash (Hash9_24_frame P u stk m) ! 12))))
    \<and> hash (Hash9_24_frame P u stk m) ! 14
         = write_at (uint512 u) 0
            (snd (sph_run (P Sha512) (stack_ctx stk Sha512)
              (take 64 (hash (Hash9_24_frame P u stk m) ! 13))))
    \<and> hash (Hash9_24_frame P u stk m) ! 15
         = write_at (uint512 u) 0
            (snd (sph_run (P Shavite512) (stack_ctx stk Shavite512)
              (take 64 (hash (Hash9_24_frame P u stk m) ! 14))))
    \<and> hash (Hash9_24_frame P u stk m) ! 16
         = write_at (uint512 u) 0
            (snd (sph_run (P Simd512) (stack_ctx stk Simd512)
              (take 64 (hash (Hash9_24_frame P u stk m) ! 15))))
    \<and> hash (Hash9_24_frame P u stk m) ! 17
         = write_at (uint512 u) 0
            (snd (sph_run (P Blake512) (stack_ctx stk Blake512)
              (take 64 (hash (Hash9_24_frame P u stk m) ! 16))))
    \<and> hash (Hash9_24_frame P u stk m) ! 18
         = write_at (uint512 u) 0
            (snd (sph_run (P Ripemd160) (stack_ctx stk Ripemd160)
              (take 64 (hash (Hash9_24_frame P u stk m) ! 17))))
    \<and> hash (Hash9_24_frame P u stk m) ! 19
         = write_at (uint512 u) 0
            (snd (sph_haval256_5_close (sph_haval256_5 (sph_haval256_5_init (stack_haval stk))
              (take 64 (hash (Hash9_24_frame P u stk m) ! 18)))))
    \<and> hash (Hash9_24_frame P u stk m) ! 20
         = write_at (uint512 u) 0
            (snd (sph_run (P Cubehash384) (stack_ctx stk Cubehash384)
              (take 64 (hash (Hash9_24_frame P u stk m) ! 19))))
    \<and> hash (Hash9_24_frame P u stk m) ! 21
         = write_at (uint512 u) 0
            (snd (sph_run (P Whirlpool1) (fst (sph_run (P Whirlpool1) (stack_ctx stk Whirlpool1) m))
              (take 64 (hash (Hash9_24_frame P u stk m) ! 20))))
    \<and> hash (Hash9_24_frame P u stk m) ! 22
         = write_at (uint512 u) 0
            (snd (sph_run (P Tiger2) (stack_ctx stk Tiger2)
              (take 64 (hash (Hash9_24_frame P u stk m) ! 21))))
    \<and> hash (Hash9_24_frame P u stk m) ! 23
         = write_at (uint512 u) 0
            (snd (sph_run (P Whirlpool) (stack_ctx stk Whirlpool)
              (take 64 (hash (Hash9_24_frame P u stk m) ! 22)))))"
  by (rule conjI [OF Hash9_chain_calls conjI [OF Hash9_5_buffers Hash9_24_buffers]])

text \<open>
  C3. In both versions the result of \<open>Hash9\<close> is \<open>trim256\<close> of the buffer of the last step,
  that is its first 32 bytes and nothing else; that buffer is the default-constructed
  \<open>uint512\<close> with the bytes the last \<open>close\<close> wrote (by CubeHash-512, by Whirlpool) stored
  from offset 0.
\<close>

theorem Hash9_result_is_trim256:
  "fst (Hash9_5 P u stk g m) = trim256 (hash (Hash9_5_frame P u stk m) ! 4)
   \<and> fst (Hash9_5 P u stk g m) = take 32 (hash (Hash9_5_frame P u stk m) ! 4)
   \<and> fst (calls (Hash9_5_frame P u stk m) ! 4) = Cubehash512
   \<and> hash (Hash9_5_frame P u stk m) ! 4
       = write_at (uint512 u) 0 (snd (snd (calls (Hash9_5_frame P u stk m) ! 4)))
   \<and> fst (Hash9_24 P u stk g m) = trim256 (hash (Hash9_24_frame P u stk m) ! 23)
   \<and> fst (Hash9_24 P u stk g m) = take 32 (hash (Hash9_24_frame P u stk m) ! 23)
   \<and> fst (calls (Hash9_24_frame P u stk m) ! 23) = Whirlpool
   \<and> hash (Hash9_24_frame P u stk m) ! 23
       = write_at (uint512 u) 0 (snd (snd (calls (Hash9_24_frame P u stk m) ! 23)))"
proof (intro conjI)
  have i5: "chain_inv (uint512 u) m 5 steps_5 (Hash9_5_frame P u stk m)"
    by (rule Hash9_5_inv)
  have i24: "chain_inv (uint512 u) m 24 steps_24 (Hash9_24_frame P u stk m)"
    by (rule Hash9_24_inv)
  have n5: "map fst (calls (Hash9_5_frame P u stk m)) = steps_5"
    by (rule chain_inv_names [OF i5])
  have n24: "map fst (calls (Hash9_24_frame P u stk m)) = steps_24"
    by (rule chain_inv_names [OF i24])
  show "fst (Hash9_5 P u stk g m) = trim256 (hash (Hash9_5_frame P u stk m) ! 4)"
    by (simp add: Hash9_5_def)
  show "fst (Hash9_5 P u stk g m) = take 32 (hash (Hash9_5_frame P u stk m) ! 4)"
    by (simp add: Hash9_5_def trim256_def)
  have "length (calls (Hash9_5_frame P u stk m)) = 5"
    using n5 by (metis length_map Hash9_step_len5)
  then have "map fst (calls (Hash9_5_frame P u stk m)) ! 4 = fst (calls (Hash9_5_frame P u stk m) ! 4)"
    by simp
  then show "fst (calls (Hash9_5_frame P u stk m) ! 4) = Cubehash512"
    by (simp add: n5 steps_5_def)
  show "hash (Hash9_5_frame P u stk m) ! 4
      = write_at (uint512 u) 0 (snd (snd (calls (Hash9_5_frame P u stk m) ! 4)))"
    using chain_inv_buffer [OF i5, of 4] by (simp add: Hash9_step_len5)
  show "fst (Hash9_24 P u stk g m) = trim256 (hash (Hash9_24_frame P u stk m) ! 23)"
    by (simp add: Hash9_24_def)
  show "fst (Hash9_24 P u stk g m) = take 32 (hash (Hash9_24_frame P u stk m) ! 23)"
    by (simp add: Hash9_24_def trim256_def)
  have "length (calls (Hash9_24_frame P u stk m)) = 24"
    using n24 by (metis length_map Hash9_step_len24)
  then have "map fst (calls (Hash9_24_frame P u stk m)) ! 23 = fst (calls (Hash9_24_frame P u stk m) ! 23)"
    by simp
  then show "fst (calls (Hash9_24_frame P u stk m) ! 23) = Whirlpool"
    by (simp add: n24 steps_24_def)
  show "hash (Hash9_24_frame P u stk m) ! 23
      = write_at (uint512 u) 0 (snd (snd (calls (Hash9_24_frame P u stk m) ! 23)))"
    using chain_inv_buffer [OF i24, of 23] by (simp add: Hash9_step_len24)
qed

lemma Hash9_5_same_out:
  assumes "\<forall>p. init_resets (P p)"
  shows "same_out (Hash9_5_frame P u stk m) (Hash9_5_frame P u stk' m)"
  unfolding Hash9_5_frame_chain
  using assms by (intro computeChain_same_out enter_same_out) simp

lemma Hash9_24_same_out:
  assumes "\<forall>p. init_resets (P p)"
  shows "same_out (Hash9_24_frame P u stk m) (Hash9_24_frame P u stk' m)"
  unfolding Hash9_24_frame_chain
  using assms by (intro computeChain_same_out enter_same_out) simp

text \<open>
  C1. For a fixed message the result of \<open>Hash9\<close>, in either version, is the same whatever
  the stack held in the uninitialised contexts and whatever the globals hold: nothing
  but the message enters the digest. The parameter primitives are required to write a
  digest that does not depend on what their context held before \<open>init\<close>; for HAVAL this
  is proved from its code.
\<close>

theorem Hash9_deterministic:
  assumes "\<forall>p. init_resets (P p)"
  shows "fst (Hash9_5 P u stk g m) = fst (Hash9_5 P u stk' g' m)
         \<and> fst (Hash9_24 P u stk g m) = fst (Hash9_24 P u stk' g' m)"
  using Hash9_5_same_out [OF assms, of u stk m stk'] Hash9_24_same_out [OF assms, of u stk m stk']
  by (simp add: Hash9_5_def Hash9_24_def same_out_def)

theorem Hash9_deterministic_witness:
  "(\<forall>p. init_resets (all_haval p))
   \<and> fst (Hash9_5 all_haval u_zero stack_zero globals_zero [1, 2, 3])
       = fst (Hash9_5 all_haval u_zero stack_ones (fillz_24 all_haval globals_zero) [1, 2, 3])
   \<and> fst (Hash9_24 all_haval u_zero stack_zero globals_zero [1, 2, 3])
       = fst (Hash9_24 all_haval u_zero stack_ones (fillz_24 all_haval globals_zero) [1, 2, 3])"
proof -
  have h: "\<forall>p. init_resets (all_haval p)"
    by (simp add: all_haval_def haval_init_resets)
  show ?thesis
    using h Hash9_deterministic [OF h, of u_zero stack_zero globals_zero "[1, 2, 3]" stack_ones
        "fillz_24 all_haval globals_zero"]
    by simp
qed

text \<open>
  C10. \<open>Hash9\<close>, in either version, returns the zero-state globals as it found them, and
  its result is the same for any values of the globals, in particular before and after
  \<open>fillz\<close>.
\<close>

theorem Hash9_ignores_zero_state_globals:
  "snd (Hash9_5 P u stk g m) = g
   \<and> fst (Hash9_5 P u stk g m) = fst (Hash9_5 P u stk g' m)
   \<and> fst (Hash9_5 P u stk (fillz_5 P g) m) = fst (Hash9_5 P u stk g m)
   \<and> snd (Hash9_24 P u stk g m) = g
   \<and> fst (Hash9_24 P u stk g m) = fst (Hash9_24 P u stk g' m)
   \<and> fst (Hash9_24 P u stk (fillz_24 P g) m) = fst (Hash9_24 P u stk g m)"
  by (simp add: Hash9_5_def Hash9_24_def)

text \<open>
  C6. On the empty message the first step passes no bytes to \<open>update\<close> and then closes:
  the first recorded run is that of the first primitive (Panama, Whirlpool-1) on the
  empty byte sequence, the first buffer holds the digest this run wrote, and the result
  of \<open>Hash9\<close> is that of the chain of the specification on the empty message, with the
  later steps as for any other message. \<open>Hash9\<close> is a total function of the model, so it
  returns; its result on the empty message is the same whatever the stack and the
  globals held, for parameter primitives whose digest does not depend on what their
  context held before \<open>init\<close>.
\<close>

theorem Hash9_empty_input:
  assumes "\<forall>p. init_resets (P p)"
  shows "first_data [] = []
   \<and> calls (Hash9_5_frame P u stk []) ! 0
       = (Panama, [], snd (sph_run (P Panama) (stack_ctx stk Panama) []))
   \<and> hash (Hash9_5_frame P u stk []) ! 0
       = write_at (uint512 u) 0 (snd (sph_run (P Panama) (stack_ctx stk Panama) []))
   \<and> Hash9_5 P u stk g [] = (computeChainHash P u stk steps_5 [], g)
   \<and> fst (Hash9_5 P u stk g []) = fst (Hash9_5 P u stk' g' [])
   \<and> calls (Hash9_24_frame P u stk []) ! 0
       = (Whirlpool1, [], snd (sph_run (P Whirlpool1) (stack_ctx stk Whirlpool1) []))
   \<and> hash (Hash9_24_frame P u stk []) ! 0
       = write_at (uint512 u) 0 (snd (sph_run (P Whirlpool1) (stack_ctx stk Whirlpool1) []))
   \<and> Hash9_24 P u stk g [] = (computeChainHash P u stk steps_24 [], g)
   \<and> fst (Hash9_24 P u stk g []) = fst (Hash9_24 P u stk' g' [])"
proof (intro conjI)
  have i5: "chain_inv (uint512 u) [] 5 steps_5 (Hash9_5_frame P u stk [])"
    by (rule Hash9_5_inv)
  have i24: "chain_inv (uint512 u) [] 24 steps_24 (Hash9_24_frame P u stk [])"
    by (rule Hash9_24_inv)
  show "first_data [] = []" by (simp add: first_data_def)
  have "calls (Hash9_5_frame P u stk []) ! 0 = (Panama, [], step_digest P Panama (enter u stk 5) [])"
    unfolding Hash9_5_frame_chain steps_5_def by (rule computeChain_first_call)
  then show c5: "calls (Hash9_5_frame P u stk []) ! 0
      = (Panama, [], snd (sph_run (P Panama) (stack_ctx stk Panama) []))"
    by (simp add: step_digest_def enter_def)
  show "hash (Hash9_5_frame P u stk []) ! 0
      = write_at (uint512 u) 0 (snd (sph_run (P Panama) (stack_ctx stk Panama) []))"
    using chain_inv_buffer [OF i5, of 0] by (simp add: c5 Hash9_step_len5)
  show "Hash9_5 P u stk g [] = (computeChainHash P u stk steps_5 [], g)"
    by (rule Hash9_5_chain)
  show "fst (Hash9_5 P u stk g []) = fst (Hash9_5 P u stk' g' [])"
    using Hash9_5_same_out [OF assms, of u stk "[]" stk']
    by (simp add: Hash9_5_def same_out_def)
  have "calls (Hash9_24_frame P u stk []) ! 0
      = (Whirlpool1, [], step_digest P Whirlpool1 (enter u stk 24) [])"
    unfolding Hash9_24_frame_chain steps_24_def by (rule computeChain_first_call)
  then show c24: "calls (Hash9_24_frame P u stk []) ! 0
      = (Whirlpool1, [], snd (sph_run (P Whirlpool1) (stack_ctx stk Whirlpool1) []))"
    by (simp add: step_digest_def enter_def)
  show "hash (Hash9_24_frame P u stk []) ! 0
      = write_at (uint512 u) 0 (snd (sph_run (P Whirlpool1) (stack_ctx stk Whirlpool1) []))"
    using chain_inv_buffer [OF i24, of 0] by (simp add: c24 Hash9_step_len24)
  show "Hash9_24 P u stk g [] = (computeChainHash P u stk steps_24 [], g)"
    by (rule Hash9_24_chain)
  show "fst (Hash9_24 P u stk g []) = fst (Hash9_24 P u stk' g' [])"
    using Hash9_24_same_out [OF assms, of u stk "[]" stk']
    by (simp add: Hash9_24_def same_out_def)
qed

theorem Hash9_empty_input_witness:
  "(\<forall>p. init_resets (all_haval p))
   \<and> calls (Hash9_24_frame all_haval u_zero stack_zero []) ! 0
       = (Whirlpool1, [], snd (sph_run (all_haval Whirlpool1) (stack_ctx stack_zero Whirlpool1) []))
   \<and> fst (Hash9_5 all_haval u_zero stack_zero globals_zero [])
       = fst (Hash9_5 all_haval u_zero stack_ones (fillz_5 all_haval globals_zero) [])
   \<and> fst (Hash9_24 all_haval u_zero stack_zero globals_zero [])
       = fst (Hash9_24 all_haval u_zero stack_ones (fillz_5 all_haval globals_zero) [])"
proof -
  have h: "\<forall>p. init_resets (all_haval p)"
    by (simp add: all_haval_def haval_init_resets)
  show ?thesis
    using h Hash9_empty_input [OF h, of u_zero stack_zero globals_zero stack_ones
        "fillz_5 all_haval globals_zero"]
    by blast
qed

section \<open>The zero-state cache\<close>

lemma zmem_zinit: "zmem (zinit P p z g) z' = (if z' = z then sph_init (P p) (zmem g z) else zmem g z')"
  by (simp add: zinit_def)

lemma zmem_zinit_haval: "zmem (zinit_haval g) z' = zmem g z'"
  by (simp add: zinit_haval_def)

lemma z_haval_zinit: "z_haval (zinit P p z g) = z_haval g"
  by (simp add: zinit_def)

lemma z_haval_fillz_24: "z_haval (fillz_24 P g) = sph_haval256_5_init (z_haval g)"
  by (simp add: fillz_24_def run_seq_def z_haval_zinit zinit_haval_def)

text \<open>
  For HAVAL the cache does what it is meant to: after \<open>fillz\<close> the snapshot is the
  result of \<open>init\<close>, and a context copied from it by \<open>ZHAVAL\<close> yields, on any data, the
  digest a context initialised directly yields.
\<close>

lemma ZHAVAL_as_init:
  "snd (sph_haval256_5_close (sph_haval256_5 (ctx_haval (ZHAVAL (fillz_24 P g) fr)) data))
   = snd (sph_run haval256_5_prim c data)"
  by (simp add: ZHAVAL_def z_haval_fillz_24 sph_run_def haval256_5_prim_def
      sph_haval256_5_init_def sph_haval256_5_def sph_haval256_5_close_def
      haval_digest_same [OF haval_init_same])

text \<open>
  C5. \<open>fillz\<close> of the 24-step header does not touch \<open>z_tiger2\<close>: it calls
  \<open>sph_tiger2_init\<close> on the object named \<open>tiger2\<close>. After \<open>fillz\<close> the snapshot
  \<open>z_tiger2\<close> is what it was before, and \<open>ZTIGER2\<close> copies that into \<open>ctx_tiger2\<close>; the
  snapshot of, say, Tiger is the result of \<open>sph_tiger_init\<close>.
\<close>

theorem fillz_24_leaves_z_tiger2:
  "zmem (fillz_24 P g) z_tiger2 = zmem g z_tiger2
   \<and> ctx (ZTIGER2 (fillz_24 P g) fr) Tiger2 = zmem g z_tiger2
   \<and> zmem (fillz_24 P g) tiger2 = sph_init (P Tiger2) (zmem g tiger2)
   \<and> zmem (fillz_24 P g) z_tiger = sph_init (P Tiger) (zmem g z_tiger)
   \<and> ctx (ZTIGER (fillz_24 P g) fr) Tiger = sph_init (P Tiger) (zmem g z_tiger)"
  by (simp add: fillz_24_def run_seq_def zmem_zinit zmem_zinit_haval ZTIGER2_def ZTIGER_def
      zcopy_def)

section \<open>What a step reads of the previous buffer\<close>

lemma haval_calls_ok_step:
  "haval_calls_ok fr \<Longrightarrow> haval_calls_ok (chain_step P m (k, p) fr)"
  by (auto simp add: haval_calls_ok_def chain_step_calls step_digest_def haval256_5_digest_length)

lemma haval_calls_ok_chain:
  "haval_calls_ok fr \<Longrightarrow> haval_calls_ok (computeChain P m k ps fr)"
  by (induction ps arbitrary: k fr) (simp_all add: haval_calls_ok_step)

lemma haval_calls_ok_enter: "haval_calls_ok (enter u stk N)"
  by (simp add: haval_calls_ok_def enter_def)

lemma uint512_length: "length (uint512 u) = 64"
  by (simp add: uint512_def)

lemma read_buffer_length: "length B = 64 \<Longrightarrow> length (take 64 (write_at B 0 d)) = 64"
  by (simp add: write_at_def)

lemma chain_inv_reads:
  assumes "chain_inv B m N ps fr" and "0 < i" and "i < length ps"
  shows "fst (snd (calls fr ! i)) = take 64 (write_at B 0 (snd (snd (calls fr ! (i - 1)))))"
proof -
  from assms have "fst (snd (calls fr ! i)) = take 64 (hash fr ! (i - 1))"
    by (simp add: chain_inv_input)
  moreover from assms have "hash fr ! (i - 1) = write_at B 0 (snd (snd (calls fr ! (i - 1))))"
    by (simp add: chain_inv_buffer)
  ultimately show ?thesis by simp
qed

lemma Hash9_24_haval_digest_length:
  "length (snd (snd (calls (Hash9_24_frame P u stk m) ! 19))) = 32"
proof -
  let ?cs = "calls (Hash9_24_frame P u stk m)"
  have names: "map fst ?cs = steps_24"
    by (rule chain_inv_names [OF Hash9_24_inv])
  then have len: "length ?cs = 24" by (metis length_map Hash9_step_len24)
  then have "map fst ?cs ! 19 = fst (?cs ! 19)" by simp
  then have "fst (?cs ! 19) = Haval256_5" by (simp add: names steps_24_def)
  moreover have "?cs ! 19 \<in> set ?cs" using len by simp
  moreover have "haval_calls_ok (Hash9_24_frame P u stk m)"
    unfolding Hash9_24_frame_chain by (intro haval_calls_ok_chain haval_calls_ok_enter)
  ultimately show ?thesis by (simp add: haval_calls_ok_def)
qed

lemma Hash9_24_after_haval:
  "fst (snd (calls (Hash9_24_frame P u stk m) ! 20))
   = snd (snd (calls (Hash9_24_frame P u stk m) ! 19)) @ drop 32 (uint512 u)"
proof -
  have "fst (snd (calls (Hash9_24_frame P u stk m) ! 20))
      = take 64 (write_at (uint512 u) 0 (snd (snd (calls (Hash9_24_frame P u stk m) ! (20 - 1)))))"
    by (rule chain_inv_reads [OF Hash9_24_inv]) (simp_all add: Hash9_step_len24)
  then show ?thesis
    by (simp add: write_at_def Hash9_24_haval_digest_length uint512_length)
qed

text \<open>
  C4, as the code has it. Every step after the first absorbs exactly 64 bytes: those of
  the previous step's buffer, which is the default-constructed \<open>uint512\<close> with the
  previous digest stored from offset 0. Where the previous digest is shorter than the
  buffer the rest of the 64 bytes are those of the default-constructed \<open>uint512\<close>:
  HAVAL-256/5 writes 32 bytes, and the step after it (CubeHash-384) absorbs them
  followed by bytes 32 to 63 of a default-constructed \<open>uint512\<close>.
\<close>

theorem Hash9_step_input:
  assumes "0 < k"
  shows "(k < 5 \<longrightarrow>
            fst (snd (calls (Hash9_5_frame P u stk m) ! k))
              = take 64 (write_at (uint512 u) 0 (snd (snd (calls (Hash9_5_frame P u stk m) ! (k - 1)))))
            \<and> length (fst (snd (calls (Hash9_5_frame P u stk m) ! k))) = 64)
         \<and> (k < 24 \<longrightarrow>
            fst (snd (calls (Hash9_24_frame P u stk m) ! k))
              = take 64 (write_at (uint512 u) 0 (snd (snd (calls (Hash9_24_frame P u stk m) ! (k - 1)))))
            \<and> length (fst (snd (calls (Hash9_24_frame P u stk m) ! k))) = 64)
         \<and> length (snd (snd (calls (Hash9_24_frame P u stk m) ! 19))) = 32
         \<and> fst (snd (calls (Hash9_24_frame P u stk m) ! 20))
             = snd (snd (calls (Hash9_24_frame P u stk m) ! 19)) @ drop 32 (uint512 u)"
proof (intro conjI impI)
  assume k: "k < 5"
  show r5: "fst (snd (calls (Hash9_5_frame P u stk m) ! k))
      = take 64 (write_at (uint512 u) 0 (snd (snd (calls (Hash9_5_frame P u stk m) ! (k - 1)))))"
    using assms k by (intro chain_inv_reads [OF Hash9_5_inv]) (simp_all add: Hash9_step_len5)
  show "length (fst (snd (calls (Hash9_5_frame P u stk m) ! k))) = 64"
    unfolding r5 by (rule read_buffer_length) (rule uint512_length)
next
  assume k: "k < 24"
  show r24: "fst (snd (calls (Hash9_24_frame P u stk m) ! k))
      = take 64 (write_at (uint512 u) 0 (snd (snd (calls (Hash9_24_frame P u stk m) ! (k - 1)))))"
    using assms k by (intro chain_inv_reads [OF Hash9_24_inv]) (simp_all add: Hash9_step_len24)
  show "length (fst (snd (calls (Hash9_24_frame P u stk m) ! k))) = 64"
    unfolding r24 by (rule read_buffer_length) (rule uint512_length)
next
  show "length (snd (snd (calls (Hash9_24_frame P u stk m) ! 19))) = 32"
    by (rule Hash9_24_haval_digest_length)
  show "fst (snd (calls (Hash9_24_frame P u stk m) ! 20))
      = snd (snd (calls (Hash9_24_frame P u stk m) ! 19)) @ drop 32 (uint512 u)"
    by (rule Hash9_24_after_haval)
qed

theorem Hash9_step_input_witness:
  "(0 :: nat) < 3
   \<and> fst (snd (calls (Hash9_5_frame all_haval u_zero stack_zero [1, 2, 3]) ! 3))
       = take 64 (write_at (uint512 u_zero) 0
           (snd (snd (calls (Hash9_5_frame all_haval u_zero stack_zero [1, 2, 3]) ! 2))))
   \<and> fst (snd (calls (Hash9_24_frame all_haval u_zero stack_zero [1, 2, 3]) ! 3))
       = take 64 (write_at (uint512 u_zero) 0
           (snd (snd (calls (Hash9_24_frame all_haval u_zero stack_zero [1, 2, 3]) ! 2))))"
  using Hash9_step_input [of 3 all_haval u_zero stack_zero "[1, 2, 3]"] by simp

text \<open>
  That every step absorbs exactly the digest of the step before it fails at step 21 of
  the 24-step chain: the digest step 20 (HAVAL-256/5) wrote has 32 bytes, step 21
  absorbs 64 bytes, so what it absorbs is not that digest. Here the parameter
  primitives are the HAVAL stand-in and the message is empty;
  \<open>Hash9_24_haval_digest_length\<close> and \<open>Hash9_24_after_haval\<close> show the same for every
  instance.
\<close>

theorem Hash9_24_step21_counterexample:
  "length (snd (snd (calls (Hash9_24_frame all_haval u_zero stack_zero []) ! 19))) = 32
   \<and> length (fst (snd (calls (Hash9_24_frame all_haval u_zero stack_zero []) ! 20))) = 64
   \<and> fst (snd (calls (Hash9_24_frame all_haval u_zero stack_zero []) ! 20))
       \<noteq> snd (snd (calls (Hash9_24_frame all_haval u_zero stack_zero []) ! 19))"
proof -
  let ?cs = "calls (Hash9_24_frame all_haval u_zero stack_zero [])"
  have d: "length (snd (snd (?cs ! 19))) = 32" by (rule Hash9_24_haval_digest_length)
  have "fst (snd (?cs ! 20)) = snd (snd (?cs ! 19)) @ drop 32 (uint512 u_zero)"
    by (rule Hash9_24_after_haval)
  then have i: "length (fst (snd (?cs ! 20))) = 64" by (simp add: d uint512_length)
  from d i have "length (fst (snd (?cs ! 20))) \<noteq> length (snd (snd (?cs ! 19)))" by simp
  then have "fst (snd (?cs ! 20)) \<noteq> snd (snd (?cs ! 19))" by auto
  with d i show ?thesis by simp
qed

end
